theory Spec2Isabelle
  imports Complex_Main "HOL-Library.Word"
begin

section \<open>The token tracker of renderer.js\<close>

text \<open>
  \<^verbatim>\<open>tokenTracker\<close> (renderer.js, lines 23 to 110) keeps an array of
  \<^verbatim>\<open>{timestamp, count, type}\<close> objects and the start of the current audio window.
  Times are milliseconds as \<^verbatim>\<open>Date.now()\<close> returns them. Every reading of the clock
  is a parameter of the function that reads it, in the order of the readings, so that
  nothing is assumed about the time that passes between two readings.
\<close>

datatype token_type = Image | Audio

record token =
  timestamp :: int
  count :: int
  type :: token_type

record tokenTracker =
  tokens :: "token list"
  audioStartTime :: "int option"

text \<open>\<^verbatim>\<open>cleanOldTokens\<close>: the filter keeps \<^verbatim>\<open>token.timestamp > Date.now() - 60 * 1000\<close>.\<close>

definition cleanOldTokens :: "int \<Rightarrow> tokenTracker \<Rightarrow> tokenTracker" where
  "cleanOldTokens now tr =
     (let oneMinuteAgo = now - 60 * 1000
      in tr\<lparr>tokens := filter (\<lambda>token. timestamp token > oneMinuteAgo) (tokens tr)\<rparr>)"

text \<open>
  \<^verbatim>\<open>addTokens\<close> reads the clock once for the timestamp it pushes (\<open>now\<close>) and once more
  inside \<^verbatim>\<open>cleanOldTokens\<close> (\<open>nowClean\<close>).
\<close>

definition addTokens :: "int \<Rightarrow> int \<Rightarrow> int \<Rightarrow> token_type \<Rightarrow> tokenTracker \<Rightarrow> tokenTracker" where
  "addTokens now nowClean cnt ty tr =
     cleanOldTokens nowClean
       (tr\<lparr>tokens := tokens tr @ [\<lparr>timestamp = now, count = cnt, type = ty\<rparr>]\<rparr>)"

text \<open>
  \<^verbatim>\<open>calculateImageTokens\<close>: \<^verbatim>\<open>Math.ceil(width / 768)\<close> is a ceiling of a quotient of
  numbers. For integers below \<open>2^53\<close> the double quotient, when it is not an integer, is
  further than its rounding error from every integer, so the ceiling of the double is
  the ceiling of the exact quotient, which is what the model takes.
\<close>

definition calculateImageTokens :: "int \<Rightarrow> int \<Rightarrow> int" where
  "calculateImageTokens width height =
     (if width \<le> 384 \<and> height \<le> 384 then 258
      else let tilesX = \<lceil>real_of_int width / 768\<rceil>;
               tilesY = \<lceil>real_of_int height / 768\<rceil>;
               totalTiles = tilesX * tilesY
           in totalTiles * 258)"

text \<open>
  \<^verbatim>\<open>trackAudioTokens\<close>. \<^verbatim>\<open>!this.audioStartTime\<close> holds for \<^verbatim>\<open>null\<close> and for the
  number 0. The elapsed time is a difference of integers divided by 1000 and multiplied
  by 32; as above the floor of the double is the floor of the exact value. The clock is
  read once in either branch (\<open>now\<close>) and twice more by \<^verbatim>\<open>addTokens\<close>.
\<close>

definition trackAudioTokens :: "int \<Rightarrow> int \<Rightarrow> int \<Rightarrow> tokenTracker \<Rightarrow> tokenTracker" where
  "trackAudioTokens now nowAdd nowClean tr =
     (if audioStartTime tr = None \<or> audioStartTime tr = Some 0
      then tr\<lparr>audioStartTime := Some now\<rparr>
      else let elapsedSeconds = real_of_int (now - the (audioStartTime tr)) / 1000;
               audioTokens = \<lfloor>elapsedSeconds * 32\<rfloor>
           in if audioTokens > 0
              then (addTokens nowAdd nowClean audioTokens Audio tr)\<lparr>audioStartTime := Some now\<rparr>
              else tr)"

text \<open>
  \<^verbatim>\<open>getTokensInLastMinute\<close> purges, then folds the counts from 0 as
  \<^verbatim>\<open>reduce\<close> does. It returns the sum and the purged tracker.
\<close>

definition getTokensInLastMinute :: "int \<Rightarrow> tokenTracker \<Rightarrow> int \<times> tokenTracker" where
  "getTokensInLastMinute now tr =
     (let tr' = cleanOldTokens now tr
      in (foldl (\<lambda>total token. total + count token) 0 (tokens tr'), tr'))"

definition reset :: "tokenTracker \<Rightarrow> tokenTracker" where
  "reset tr = tr\<lparr>tokens := [], audioStartTime := None\<rparr>"

text \<open>The tracker as the module creates it.\<close>

definition tokenTracker0 :: tokenTracker where
  "tokenTracker0 = \<lparr>tokens = [], audioStartTime = None\<rparr>"


section \<open>Strings and the settings read from localStorage\<close>

text \<open>
  A JavaScript string is a sequence of UTF-16 code units, here natural numbers.
  \<open>lit\<close> writes an ASCII literal of the source as such a sequence.
\<close>

type_synonym jsstring = "nat list"

definition lit :: "string \<Rightarrow> jsstring" where
  "lit s = map of_char s"

text \<open>
  The code units that \<^verbatim>\<open>String.prototype.trim\<close> and \<^verbatim>\<open>parseInt\<close> skip: the
  white space and line terminator characters of ECMAScript (tab, line feed, vertical tab,
  form feed, carriage return, space, no-break space, U+1680, U+2000 to U+200A, U+2028,
  U+2029, U+202F, U+205F, U+3000 and U+FEFF).
\<close>

definition isWhiteSpace :: "nat \<Rightarrow> bool" where
  "isWhiteSpace c \<longleftrightarrow>
     c = 9 \<or> c = 10 \<or> c = 11 \<or> c = 12 \<or> c = 13 \<or> c = 32 \<or> c = 160 \<or> c = 5760
     \<or> (8192 \<le> c \<and> c \<le> 8202) \<or> c = 8232 \<or> c = 8233 \<or> c = 8239 \<or> c = 8287
     \<or> c = 12288 \<or> c = 65279"

definition isDigit :: "nat \<Rightarrow> bool" where
  "isDigit c \<longleftrightarrow> 48 \<le> c \<and> c \<le> 57"

text \<open>
  \<^verbatim>\<open>parseInt(s, 10)\<close> of ECMAScript: leading white space is skipped, one sign is read,
  the longest prefix of decimal digits is the value, and there is no number
  (\<^verbatim>\<open>NaN\<close>, here \<open>None\<close>) when that prefix is empty. The value is exact below \<open>2^53\<close>.
\<close>

definition parseInt10 :: "jsstring \<Rightarrow> int option" where
  "parseInt10 s =
     (let S = dropWhile isWhiteSpace s;
          sign = (if S \<noteq> [] \<and> hd S = 45 then - 1 else 1);
          S' = (if S \<noteq> [] \<and> (hd S = 43 \<or> hd S = 45) then tl S else S);
          Z = takeWhile isDigit S'
      in if Z = [] then None
         else Some (sign * foldl (\<lambda>acc d. acc * 10 + (int d - 48)) 0 Z))"

text \<open>
  \<^verbatim>\<open>localStorage.getItem(key)\<close> is \<^verbatim>\<open>null\<close> (\<open>None\<close>) or a string. The three keys
  that \<^verbatim>\<open>shouldThrottle\<close> reads are the fields. \<^verbatim>\<open>value || fallback\<close> takes the
  fallback for \<^verbatim>\<open>null\<close> and for the empty string.
\<close>

record localStorage =
  throttleTokens :: "jsstring option"
  maxTokensPerMin :: "jsstring option"
  throttleAtPercent :: "jsstring option"

definition orDefault :: "jsstring option \<Rightarrow> jsstring \<Rightarrow> jsstring" where
  "orDefault v fallback = (case v of None \<Rightarrow> fallback | Some x \<Rightarrow> if x = [] then fallback else x)"

text \<open>
  \<^verbatim>\<open>shouldThrottle\<close> returns its answer and the tracker, which
  \<^verbatim>\<open>getTokensInLastMinute\<close> has purged when throttling is enabled. A setting that
  \<^verbatim>\<open>parseInt\<close> cannot read makes the threshold \<^verbatim>\<open>NaN\<close>, and
  \<^verbatim>\<open>currentTokens >= NaN\<close> is false.
\<close>

definition shouldThrottle :: "int \<Rightarrow> localStorage \<Rightarrow> tokenTracker \<Rightarrow> bool \<times> tokenTracker" where
  "shouldThrottle now ls tr =
     (let throttleEnabled = (throttleTokens ls = Some (lit ''true''))
      in if \<not> throttleEnabled then (False, tr)
         else let maxTokens = parseInt10 (orDefault (maxTokensPerMin ls) (lit ''1000000''));
                  atPercent = parseInt10 (orDefault (throttleAtPercent ls) (lit ''75''));
                  (currentTokens, tr') = getTokensInLastMinute now tr;
                  throttleThreshold =
                    (case (maxTokens, atPercent) of
                       (Some m, Some p) \<Rightarrow> Some \<lfloor>real_of_int (m * p) / 100\<rfloor>
                     | _ \<Rightarrow> None)
              in (case throttleThreshold of
                    None \<Rightarrow> (False, tr')
                  | Some threshold \<Rightarrow> (currentTokens \<ge> threshold, tr')))"


section \<open>Audio samples\<close>

text \<open>
  A JavaScript number: a real value, an infinity or \<^verbatim>\<open>NaN\<close>. The samples are the values
  of a \<^verbatim>\<open>Float32Array\<close> (24 significant bits); their products with \<^verbatim>\<open>0x8000\<close> and
  \<^verbatim>\<open>0x7fff\<close> have at most 39 significant bits and are exact in double precision, so
  the arithmetic of \<^verbatim>\<open>convertFloat32ToInt16\<close> is the exact one on these inputs.
\<close>

datatype jsnum = NaN | NegInf | Num real | PosInf

fun Math_min :: "jsnum \<Rightarrow> jsnum \<Rightarrow> jsnum" where
  "Math_min NaN _ = NaN"
| "Math_min _ NaN = NaN"
| "Math_min NegInf _ = NegInf"
| "Math_min _ NegInf = NegInf"
| "Math_min PosInf y = y"
| "Math_min x PosInf = x"
| "Math_min (Num a) (Num b) = Num (min a b)"

fun Math_max :: "jsnum \<Rightarrow> jsnum \<Rightarrow> jsnum" where
  "Math_max NaN _ = NaN"
| "Math_max _ NaN = NaN"
| "Math_max PosInf _ = PosInf"
| "Math_max _ PosInf = PosInf"
| "Math_max NegInf y = y"
| "Math_max x NegInf = x"
| "Math_max (Num a) (Num b) = Num (max a b)"

text \<open>\<^verbatim>\<open>s < 0\<close>, and \<^verbatim>\<open>s * k\<close> for a positive constant \<open>k\<close>.\<close>

fun lessZero :: "jsnum \<Rightarrow> bool" where
  "lessZero NaN = False"
| "lessZero NegInf = True"
| "lessZero (Num a) = (a < 0)"
| "lessZero PosInf = False"

fun scale :: "jsnum \<Rightarrow> real \<Rightarrow> jsnum" where
  "scale (Num a) k = Num (a * k)"
| "scale x k = x"

text \<open>
  Storing a number into an \<^verbatim>\<open>Int16Array\<close> is the conversion \<^verbatim>\<open>ToInt16\<close>: 0 for
  \<^verbatim>\<open>NaN\<close> and the infinities, otherwise the number truncated towards zero, modulo
  \<open>2^16\<close>.
\<close>

definition trunc :: "real \<Rightarrow> int" where
  "trunc r = (if r < 0 then \<lceil>r\<rceil> else \<lfloor>r\<rfloor>)"

fun ToInt16 :: "jsnum \<Rightarrow> 16 word" where
  "ToInt16 (Num a) = word_of_int (trunc a)"
| "ToInt16 x = 0"

definition convertFloat32ToInt16 :: "jsnum list \<Rightarrow> 16 word list" where
  "convertFloat32ToInt16 float32Array =
     map (\<lambda>x. let s = Math_max (Num (- 1)) (Math_min (Num 1) x)
               in ToInt16 (if lessZero s then scale s 32768 else scale s 32767))
       float32Array"

text \<open>
  What the claim says of one sample: the sample clamped to the interval from -1 to 1 and
  scaled by 32768 below zero and by 32767 from zero on. \<^verbatim>\<open>NaN\<close> is no sample to clamp.
\<close>

fun clamp :: "jsnum \<Rightarrow> real" where
  "clamp (Num a) = max (- 1) (min 1 a)"
| "clamp PosInf = 1"
| "clamp NegInf = - 1"
| "clamp NaN = 0"

definition scaled :: "jsnum \<Rightarrow> real" where
  "scaled x = (if clamp x < 0 then clamp x * 32768 else clamp x * 32767)"


section \<open>Calls to the main process\<close>

text \<open>
  \<^verbatim>\<open>await ipcRenderer.invoke(channel, payload)\<close> either resolves with the object the main
  process returns, of which the code reads \<^verbatim>\<open>success\<close> and \<^verbatim>\<open>error\<close>, or rejects
  with an error, of which \<^verbatim>\<open>sendTextMessage\<close> reads the message.
\<close>

record ipc_result =
  success :: bool
  error :: "jsstring option"

datatype invoke_outcome = Resolved ipc_result | Rejected jsstring


section \<open>The audio chunker\<close>

text \<open>
  \<^verbatim>\<open>arrayBufferToBase64\<close> turns every byte into one character and applies
  \<^verbatim>\<open>btoa\<close>, the base64 encoding of the platform (alphabet A to Z, a to z, 0 to 9, plus
  and slash, padded with the equals sign). The buffer of an \<^verbatim>\<open>Int16Array\<close> holds each
  element as two bytes, low byte first on the platforms Electron runs on.
\<close>

definition b64char :: "nat \<Rightarrow> nat" where
  "b64char n = (if n < 26 then 65 + n else if n < 52 then 97 + (n - 26)
                else if n < 62 then 48 + (n - 52) else if n = 62 then 43 else 47)"

fun btoa :: "nat list \<Rightarrow> jsstring" where
  "btoa (a # b # c # rest) =
     b64char (a div 4) # b64char ((a mod 4) * 16 + b div 16)
       # b64char ((b mod 16) * 4 + c div 64) # b64char (c mod 64) # btoa rest"
| "btoa [a, b] = [b64char (a div 4), b64char ((a mod 4) * 16 + b div 16), b64char ((b mod 16) * 4), 61]"
| "btoa [a] = [b64char (a div 4), b64char ((a mod 4) * 16), 61, 61]"
| "btoa [] = []"

definition buffer :: "16 word list \<Rightarrow> 8 word list" where
  "buffer int16Array = concat (map (\<lambda>w. [ucast w, ucast (drop_bit 8 w)]) int16Array)"

definition arrayBufferToBase64 :: "8 word list \<Rightarrow> jsstring" where
  "arrayBufferToBase64 bytes = btoa (map unat bytes)"

record audio_content =
  data :: jsstring
  mimeType :: jsstring

text \<open>
  \<^verbatim>\<open>samplesPerChunk = SAMPLE_RATE * AUDIO_CHUNK_DURATION\<close> is \<^verbatim>\<open>24000 * 0.1\<close>, which
  double arithmetic rounds to 2400 exactly.
\<close>

definition SAMPLE_RATE :: nat where
  "SAMPLE_RATE = 24000"

definition samplesPerChunk :: nat where
  "samplesPerChunk = 2400"

text \<open>The body of the loop between \<^verbatim>\<open>splice\<close> and \<^verbatim>\<open>invoke\<close>: the payload of one chunk.\<close>

definition encodeChunk :: "jsnum list \<Rightarrow> audio_content" where
  "encodeChunk chunk =
     (let pcmData16 = convertFloat32ToInt16 chunk;
          base64Data = arrayBufferToBase64 (buffer pcmData16)
      in \<lparr>data = base64Data, mimeType = lit ''audio/pcm;rate=24000''\<rparr>)"

text \<open>
  The \<^verbatim>\<open>while\<close> loop of \<^verbatim>\<open>onaudioprocess\<close> (the same text in
  \<^verbatim>\<open>setupLinuxMicProcessing\<close> and \<^verbatim>\<open>setupWindowsLoopbackProcessing\<close>, each on a
  buffer of its own). \<open>sink k\<close> is what the \<open>k\<close>-th \<^verbatim>\<open>invoke\<close> of the invocation does;
  its resolved value is ignored, and a rejection is not caught: it ends the handler
  with the chunk already spliced off. (The handler of the main process is not among the
  sources; the specification describes \<^verbatim>\<open>invoke\<close> as returning a result of success or
  failure, that is, as resolving.) The result is the payloads handed to
  \<^verbatim>\<open>invoke\<close> in order, the buffer left, and whether the loop ran to its end.
  One invocation is taken to run from its first statement to its last without another
  invocation of the handler in between.
\<close>

function drainChunks ::
  "(nat \<Rightarrow> invoke_outcome) \<Rightarrow> nat \<Rightarrow> jsnum list \<Rightarrow> audio_content list
     \<Rightarrow> audio_content list \<times> jsnum list \<times> bool" where
  "drainChunks sink k audioBuffer sent =
     (if length audioBuffer \<ge> samplesPerChunk
      then let chunk = take samplesPerChunk audioBuffer;
               audioBuffer' = drop samplesPerChunk audioBuffer;
               content = encodeChunk chunk
           in (case sink k of
                 Resolved _ \<Rightarrow> drainChunks sink (Suc k) audioBuffer' (sent @ [content])
               | Rejected _ \<Rightarrow> (sent @ [content], audioBuffer', False))
      else (sent, audioBuffer, True))"
  by pat_completeness auto
termination
  by (relation "measure (\<lambda>(sink, k, audioBuffer, sent). length audioBuffer)")
    (auto simp: samplesPerChunk_def)

declare drainChunks.simps [simp del]

definition onaudioprocess ::
  "(nat \<Rightarrow> invoke_outcome) \<Rightarrow> jsnum list \<Rightarrow> jsnum list \<Rightarrow> audio_content list \<times> jsnum list \<times> bool" where
  "onaudioprocess sink audioBuffer inputData = drainChunks sink 0 (audioBuffer @ inputData) []"


section \<open>Text messages\<close>

definition trim :: "jsstring \<Rightarrow> jsstring" where
  "trim s = rev (dropWhile isWhiteSpace (rev (dropWhile isWhiteSpace s)))"

text \<open>
  \<^verbatim>\<open>sendTextMessage\<close>. The text is a string, or absent (\<^verbatim>\<open>undefined\<close> or \<^verbatim>\<open>null\<close>,
  here \<open>None\<close>); \<^verbatim>\<open>!text\<close> holds for an absent and for the empty string. The result is
  the object returned and the list of the texts handed to \<^verbatim>\<open>invoke\<close>.
\<close>

definition sendTextMessage ::
  "jsstring option \<Rightarrow> (jsstring \<Rightarrow> invoke_outcome) \<Rightarrow> ipc_result \<times> jsstring list" where
  "sendTextMessage text invoke =
     (if text = None \<or> text = Some [] \<or> length (trim (the text)) = 0
      then (\<lparr>success = False, error = Some (lit ''Empty message'')\<rparr>, [])
      else (case invoke (the text) of
              Resolved result \<Rightarrow> (result, [the text])
            | Rejected message \<Rightarrow> (\<lparr>success = False, error = Some message\<rparr>, [the text])))"


section \<open>Screenshots\<close>

definition DIFF_CANVAS_WIDTH :: nat where
  "DIFF_CANVAS_WIDTH = 160"

definition DIFF_CANVAS_HEIGHT :: nat where
  "DIFF_CANVAS_HEIGHT = 90"

text \<open>
  \<^verbatim>\<open>SCREEN_CHANGE_THRESHOLD = 0.05\<close>. The ratio compared with it is a quotient of a pixel
  count by 14400; the double quotient is below the double \<^verbatim>\<open>0.05\<close> exactly when the
  count is below 720, as for the exact quotient and 5/100, which the model takes.
\<close>

definition SCREEN_CHANGE_THRESHOLD :: real where
  "SCREEN_CHANGE_THRESHOLD = 5 / 100"

definition MIN_SEND_INTERVAL_MS :: int where
  "MIN_SEND_INTERVAL_MS = 1500"

text \<open>
  The pixel data of a canvas is a \<^verbatim>\<open>Uint8ClampedArray\<close>, four bytes (red, green, blue,
  alpha) for each pixel. Reading past the end gives \<^verbatim>\<open>undefined\<close>, the difference is
  then \<^verbatim>\<open>NaN\<close>, here \<open>None\<close>, and \<^verbatim>\<open>NaN > 10\<close> is false.
\<close>

definition byteAt :: "8 word list \<Rightarrow> nat \<Rightarrow> int option" where
  "byteAt a i = (if i < length a then Some (uint (a ! i)) else None)"

definition absDiff :: "int option \<Rightarrow> int option \<Rightarrow> int option" where
  "absDiff x y = (case (x, y) of (Some a, Some b) \<Rightarrow> Some \<bar>a - b\<bar> | _ \<Rightarrow> None)"

definition exceeds10 :: "int option \<Rightarrow> bool" where
  "exceeds10 d = (case d of Some v \<Rightarrow> v > 10 | None \<Rightarrow> False)"

text \<open>The \<^verbatim>\<open>for\<close> loop that counts the changed pixels, from index \<open>i\<close> on.\<close>

function countChanged :: "8 word list \<Rightarrow> 8 word list \<Rightarrow> nat \<Rightarrow> nat \<Rightarrow> nat" where
  "countChanged diffImageData lastSent i changedPixels =
     (if i < length diffImageData
      then let rDiff = absDiff (byteAt diffImageData i) (byteAt lastSent i);
               gDiff = absDiff (byteAt diffImageData (i + 1)) (byteAt lastSent (i + 1));
               bDiff = absDiff (byteAt diffImageData (i + 2)) (byteAt lastSent (i + 2))
           in countChanged diffImageData lastSent (i + 4)
                (if exceeds10 rDiff \<or> exceeds10 gDiff \<or> exceeds10 bDiff
                 then changedPixels + 1 else changedPixels)
      else changedPixels)"
  by pat_completeness auto
termination
  by (relation "measure (\<lambda>(diffImageData, lastSent, i, changedPixels). length diffImageData - i)") auto

declare countChanged.simps [simp del]

definition qualityValue :: "jsstring \<Rightarrow> real" where
  "qualityValue imageQuality =
     (if imageQuality = lit ''high'' then 9 / 10
      else if imageQuality = lit ''medium'' then 7 / 10
      else if imageQuality = lit ''low'' then 5 / 10
      else 7 / 10)"

text \<open>
  The module's variables that \<^verbatim>\<open>captureScreenshot\<close> reads and writes. \<open>mediaStream\<close>
  and \<open>hiddenVideo\<close> say whether the variable holds an object; \<open>offscreenCanvas\<close> holds
  the width and height the canvas was created with; \<open>storage\<close> is the \<^verbatim>\<open>localStorage\<close>
  of the window.
\<close>

record renderer =
  mediaStream :: bool
  tokenTracker :: tokenTracker
  storage :: localStorage
  hiddenVideo :: bool
  offscreenCanvas :: "(int \<times> int) option"
  lastSentDiffData :: "8 word list option"
  lastScreenshotSentTime :: int

text \<open>
  What one call of \<^verbatim>\<open>captureScreenshot\<close> receives from outside: the readings of the
  clock in their order (\<open>tThrottle\<close> inside \<^verbatim>\<open>shouldThrottle\<close>, \<open>tGate\<close> at the interval
  check, \<open>tAdd\<close> and \<open>tClean\<close> inside \<^verbatim>\<open>addTokens\<close>, \<open>tSent\<close> for
  \<^verbatim>\<open>lastScreenshotSentTime\<close>), the state of the video element, the pixels of the frame
  drawn on the 160 by 90 canvas, whether \<^verbatim>\<open>toBlob\<close> yields a blob at a quality, the part
  of the data URL after the comma (\<open>None\<close> when there is none), and what
  \<^verbatim>\<open>invoke('send-image-content', ...)\<close> does. The video element is taken to play and
  to load its metadata.
\<close>

record capture_env =
  tThrottle :: int
  videoWidth :: int
  videoHeight :: int
  readyState :: nat
  diffImageData :: "8 word list"
  tGate :: int
  toBlob :: "real \<Rightarrow> bool"
  base64data :: "real \<Rightarrow> jsstring option"
  sendImageContent :: "jsstring \<Rightarrow> invoke_outcome"
  tAdd :: int
  tClean :: int
  tSent :: int

text \<open>How a call ends: one constructor for each \<^verbatim>\<open>return\<close> and each way through the callbacks.\<close>

datatype capture_outcome =
    NoMediaStream
  | RateLimited
  | VideoNotReady
  | Threw
  | ScreenUnchanged
  | MinIntervalNotMet
  | BlobFailed
  | InvalidBase64
  | SendRejected
  | SendFailed
  | Sent int

text \<open>
  The callbacks of \<^verbatim>\<open>toBlob\<close> and of the file reader: the send attempt. A rejected
  \<^verbatim>\<open>invoke\<close> ends the callback; reading the width of a canvas that is \<^verbatim>\<open>null\<close> throws.
\<close>

definition sendImage :: "capture_env \<Rightarrow> real \<Rightarrow> renderer \<Rightarrow> capture_outcome \<times> renderer" where
  "sendImage env quality st =
     (if \<not> toBlob env quality then (BlobFailed, st)
      else (case base64data env quality of
              None \<Rightarrow> (InvalidBase64, st)
            | Some d \<Rightarrow>
                if d = [] \<or> length d < 100 then (InvalidBase64, st)
                else (case sendImageContent env d of
                        Rejected _ \<Rightarrow> (SendRejected, st)
                      | Resolved result \<Rightarrow>
                          if success result
                          then (case offscreenCanvas st of
                                  None \<Rightarrow> (Threw, st)
                                | Some (width, height) \<Rightarrow>
                                    let imageTokens = calculateImageTokens width height
                                    in (Sent imageTokens,
                                        st\<lparr>tokenTracker :=
                                             addTokens (tAdd env) (tClean env) imageTokens Image (tokenTracker st),
                                           lastScreenshotSentTime := tSent env\<rparr>))
                          else (SendFailed, st))))"

text \<open>
  \<^verbatim>\<open>captureScreenshot\<close>, statement by statement: the stream check, the throttle check
  of automated captures (\<^verbatim>\<open>shouldThrottle\<close> is not called for a manual one), the lazy
  creation of the video element and of the canvas with the dimensions of the video, the
  readiness check, the drawing (which throws without a canvas context), the comparison
  with \<^verbatim>\<open>lastSentDiffData\<close> for automated captures, and the send attempt. The check
  for a blank first pixel only writes a warning and is left out.
\<close>

definition captureScreenshot ::
  "capture_env \<Rightarrow> jsstring \<Rightarrow> bool \<Rightarrow> renderer \<Rightarrow> capture_outcome \<times> renderer" where
  "captureScreenshot env imageQuality isManual st =
     (if \<not> mediaStream st then (NoMediaStream, st)
      else let (throttled, tr) =
                 (if isManual then (False, tokenTracker st)
                  else shouldThrottle (tThrottle env) (storage st) (tokenTracker st));
               st1 = st\<lparr>tokenTracker := tr\<rparr>
           in if throttled then (RateLimited, st1)
              else let st2 = (if hiddenVideo st1 then st1
                              else st1\<lparr>hiddenVideo := True,
                                      offscreenCanvas := Some (videoWidth env, videoHeight env)\<rparr>)
                   in if readyState env < 2 then (VideoNotReady, st2)
                      else if offscreenCanvas st2 = None then (Threw, st2)
                      else if isManual then sendImage env (qualityValue imageQuality) st2
                      else (case lastSentDiffData st2 of
                              None \<Rightarrow> sendImage env (qualityValue imageQuality) st2
                            | Some lastSent \<Rightarrow>
                                let changedPixels = countChanged (diffImageData env) lastSent 0 0;
                                    totalPixels = DIFF_CANVAS_WIDTH * DIFF_CANVAS_HEIGHT;
                                    changeRatio = real changedPixels / real totalPixels
                                in if changeRatio < SCREEN_CHANGE_THRESHOLD then (ScreenUnchanged, st2)
                                   else if tGate env - lastScreenshotSentTime st2 < MIN_SEND_INTERVAL_MS
                                   then (MinIntervalNotMet, st2)
                                   else sendImage env (qualityValue imageQuality)
                                          (st2\<lparr>lastSentDiffData := Some (diffImageData env)\<rparr>)))"

text \<open>
  \<^verbatim>\<open>startCapture\<close> resets the tracker and, when the streams are acquired, sets
  \<^verbatim>\<open>mediaStream\<close>; \<^verbatim>\<open>stopCapture\<close> clears the stream, the video and the canvas. Neither
  touches \<^verbatim>\<open>lastSentDiffData\<close> or \<^verbatim>\<open>lastScreenshotSentTime\<close>.
\<close>

definition startCapture :: "bool \<Rightarrow> renderer \<Rightarrow> renderer" where
  "startCapture acquired st =
     st\<lparr>tokenTracker := reset (tokenTracker st), mediaStream := (acquired \<or> mediaStream st)\<rparr>"

definition stopCapture :: "renderer \<Rightarrow> renderer" where
  "stopCapture st = st\<lparr>mediaStream := False, hiddenVideo := False, offscreenCanvas := None\<rparr>"

text \<open>The variables as the module initialises them, in a window with the settings \<open>ls\<close>.\<close>

definition renderer0 :: "localStorage \<Rightarrow> renderer" where
  "renderer0 ls =
     \<lparr>mediaStream = False, tokenTracker = tokenTracker0, storage = ls, hiddenVideo = False,
      offscreenCanvas = None, lastSentDiffData = None, lastScreenshotSentTime = 0\<rparr>"

text \<open>
  A session: the calls that reach the module, one after the other. \<open>run\<close> returns how
  the captures ended, in order, and the final state.
\<close>

datatype event =
    StartCapture bool
  | Capture capture_env jsstring bool
  | StopCapture
  | AudioTick int int int
  | SetStorage localStorage

fun step :: "event \<Rightarrow> renderer \<Rightarrow> capture_outcome option \<times> renderer" where
  "step (StartCapture acquired) st = (None, startCapture acquired st)"
| "step (Capture env imageQuality isManual) st =
     (let (outcome, st') = captureScreenshot env imageQuality isManual st in (Some outcome, st'))"
| "step StopCapture st = (None, stopCapture st)"
| "step (AudioTick now nowAdd nowClean) st =
     (None, st\<lparr>tokenTracker := trackAudioTokens now nowAdd nowClean (tokenTracker st)\<rparr>)"
| "step (SetStorage ls) st = (None, st\<lparr>storage := ls\<rparr>)"

fun run :: "event list \<Rightarrow> renderer \<Rightarrow> capture_outcome list \<times> renderer" where
  "run [] st = ([], st)"
| "run (e # es) st =
     (let (outcome, st') = step e st;
          (outcomes, st'') = run es st'
      in ((case outcome of None \<Rightarrow> outcomes | Some x \<Rightarrow> x # outcomes), st''))"


text \<open>
  What the specification calls a changed pixel: pixel \<open>p\<close> of the 160 by 90 grid differs
  from the same pixel of the fingerprint by more than 10 in its red, green or blue byte.
\<close>

definition pixelChanged :: "8 word list \<Rightarrow> 8 word list \<Rightarrow> nat \<Rightarrow> bool" where
  "pixelChanged frame lastSent p \<longleftrightarrow>
     \<bar>uint (frame ! (4 * p)) - uint (lastSent ! (4 * p))\<bar> > 10
     \<or> \<bar>uint (frame ! (4 * p + 1)) - uint (lastSent ! (4 * p + 1))\<bar> > 10
     \<or> \<bar>uint (frame ! (4 * p + 2)) - uint (lastSent ! (4 * p + 2))\<bar> > 10"

text \<open>
  A window without settings, a uniformly grey frame of 14400 pixels, and an environment
  for examples: a 1920 by 1080 video that is ready, a blob and a data URL of 2000
  characters at every quality, and a main process that answers \<open>ok\<close>; the clock reads
  \<open>t\<close> before the send and \<open>t + 40\<close> after it.
\<close>

definition settingsOff :: localStorage where
  "settingsOff = \<lparr>throttleTokens = None, maxTokensPerMin = None, throttleAtPercent = None\<rparr>"

definition greyFrame :: "8 word list" where
  "greyFrame = concat (replicate 14400 [40, 40, 40, 255])"

definition exampleEnv :: "int \<Rightarrow> 8 word list \<Rightarrow> bool \<Rightarrow> capture_env" where
  "exampleEnv t frame ok =
     \<lparr>tThrottle = t, videoWidth = 1920, videoHeight = 1080, readyState = 4, diffImageData = frame,
      tGate = t, toBlob = (\<lambda>q. True), base64data = (\<lambda>q. Some (replicate 2000 65)),
      sendImageContent = (\<lambda>d. Resolved \<lparr>success = ok, error = None\<rparr>),
      tAdd = t + 40, tClean = t + 40, tSent = t + 40\<rparr>"

section \<open>Properties of the token tracker\<close>

lemma reduce_counts: "foldl (\<lambda>total token. total + count token) a ts = a + sum_list (map count ts)"
  by (induction ts arbitrary: a) simp_all

lemma tokens_cleanOldTokens:
  "tokens (cleanOldTokens now tr) = filter (\<lambda>t. now - timestamp t < 60000) (tokens tr)"
  by (auto simp: cleanOldTokens_def intro!: filter_cong)

lemma audioStartTime_cleanOldTokens [simp]:
  "audioStartTime (cleanOldTokens now tr) = audioStartTime tr"
  by (simp add: cleanOldTokens_def)

lemma ceiling_768: "\<lceil>real_of_int w / 768\<rceil> = - ((- w) div 768)"
  using ceiling_divide_eq_div [of w 768] by simp

lemma floor_audio: "\<lfloor>real_of_int d / 1000 * 32\<rfloor> = (d * 32) div 1000"
proof -
  have "real_of_int d / 1000 * 32 = real_of_int (d * 32) / real_of_int 1000" by simp
  then show ?thesis by (simp only: floor_divide_of_int_eq)
qed

text \<open>
  Claim C4. For all positive integers \<open>w\<close> and \<open>h\<close>, \<open>calculateImageTokens w h\<close> is 258
  when both are at most 384, and otherwise the number of 768 by 768 tiles, counted by
  ceiling division on each axis, times 258; the ceiling \<open>k\<close> of \<open>w / 768\<close> is the integer
  with \<open>768 * (k - 1) < w \<le> 768 * k\<close>. At (800, 800) the result is 1032, at (1, 1) it is
  258 and at (768, 1536) it is 516.
\<close>

theorem calculateImageTokens_tiles:
  "(0 < w \<and> 0 < h \<longrightarrow>
      calculateImageTokens w h =
        (if w \<le> 384 \<and> h \<le> 384 then 258
         else \<lceil>real_of_int w / 768\<rceil> * \<lceil>real_of_int h / 768\<rceil> * 258)
      \<and> 768 * (\<lceil>real_of_int w / 768\<rceil> - 1) < w \<and> w \<le> 768 * \<lceil>real_of_int w / 768\<rceil>
      \<and> 768 * (\<lceil>real_of_int h / 768\<rceil> - 1) < h \<and> h \<le> 768 * \<lceil>real_of_int h / 768\<rceil>)
   \<and> calculateImageTokens 800 800 = 1032
   \<and> calculateImageTokens 1 1 = 258
   \<and> calculateImageTokens 768 1536 = 516"
proof -
  have bounds: "768 * (\<lceil>real_of_int x / 768\<rceil> - 1) < x \<and> x \<le> 768 * \<lceil>real_of_int x / 768\<rceil>" for x :: int
  proof -
    define q r where "q = (- x) div 768" and "r = (- x) mod 768"
    have qr: "768 * q + r = - x" "0 \<le> r" "r < 768"
      by (simp_all add: q_def r_def)
    have lo: "768 * (- q - 1) < x"
      using qr by arith
    have hi: "x \<le> 768 * (- q)"
      using qr by arith
    from lo hi show ?thesis
      by (simp only: ceiling_768 q_def)
  qed
  have general: "calculateImageTokens w h =
        (if w \<le> 384 \<and> h \<le> 384 then 258
         else \<lceil>real_of_int w / 768\<rceil> * \<lceil>real_of_int h / 768\<rceil> * 258)"
    by (simp add: calculateImageTokens_def Let_def)
  have e1: "calculateImageTokens 800 800 = 1032"
    by (simp add: calculateImageTokens_def Let_def ceiling_divide_eq_div_numeral)
  have e2: "calculateImageTokens 1 1 = 258"
    by (simp add: calculateImageTokens_def)
  have e3: "calculateImageTokens 768 1536 = 516"
    by (simp add: calculateImageTokens_def Let_def ceiling_divide_eq_div_numeral)
  from bounds [of w] bounds [of h] general e1 e2 e3 show ?thesis by blast
qed

theorem calculateImageTokens_tiles_witness:
  "calculateImageTokens 1920 1080 = 1548 \<and> calculateImageTokens 384 384 = 258
   \<and> calculateImageTokens 385 10 = 258"
proof -
  have a: "calculateImageTokens 1920 1080 =
      \<lceil>real_of_int 1920 / 768\<rceil> * \<lceil>real_of_int 1080 / 768\<rceil> * 258"
    using calculateImageTokens_tiles [of 1920 1080] by simp
  have b: "calculateImageTokens 384 384 = 258"
    using calculateImageTokens_tiles [of 384 384] by simp
  have c: "calculateImageTokens 385 10 = \<lceil>real_of_int 385 / 768\<rceil> * \<lceil>real_of_int 10 / 768\<rceil> * 258"
    using calculateImageTokens_tiles [of 385 10] by simp
  from a b c show ?thesis by (simp add: ceiling_divide_eq_div_numeral)
qed

text \<open>
  Claim C5. The window slides over 60 seconds: at a query at time \<open>now\<close> every event older
  than 60 s is purged and every event younger than 60 s is kept (the filter keeps exactly
  the events of age below 60 000 ms), and \<open>getTokensInLastMinute\<close> returns the sum of
  the counts of the events kept. One event of count 500 added at time 0 gives 500 at
  a query at 59 s and 0 at a query at 61 s, asked in either order or one after the other.
\<close>

theorem sliding_window_60s:
  "tokens (snd (getTokensInLastMinute now tr)) = filter (\<lambda>t. now - timestamp t < 60000) (tokens tr)
   \<and> (\<forall>t \<in> set (tokens tr). 60000 < now - timestamp t \<longrightarrow> t \<notin> set (tokens (snd (getTokensInLastMinute now tr))))
   \<and> (\<forall>t \<in> set (tokens tr). now - timestamp t < 60000 \<longrightarrow> t \<in> set (tokens (snd (getTokensInLastMinute now tr))))
   \<and> fst (getTokensInLastMinute now tr) = sum_list (map count (tokens (snd (getTokensInLastMinute now tr))))
   \<and> fst (getTokensInLastMinute now tr) = (\<Sum>t \<leftarrow> tokens tr. if now - timestamp t < 60000 then count t else 0)
   \<and> fst (getTokensInLastMinute 59000 (addTokens 0 0 500 Image tokenTracker0)) = 500
   \<and> fst (getTokensInLastMinute 61000 (addTokens 0 0 500 Image tokenTracker0)) = 0
   \<and> fst (getTokensInLastMinute 61000
            (snd (getTokensInLastMinute 59000 (addTokens 0 0 500 Image tokenTracker0)))) = 0"
proof -
  have kept: "tokens (snd (getTokensInLastMinute now tr)) = filter (\<lambda>t. now - timestamp t < 60000) (tokens tr)"
    by (simp add: getTokensInLastMinute_def Let_def tokens_cleanOldTokens)
  have total: "fst (getTokensInLastMinute now tr) = sum_list (map count (tokens (snd (getTokensInLastMinute now tr))))"
    by (simp add: getTokensInLastMinute_def Let_def reduce_counts)
  have sum_if: "sum_list (map count (filter P ts)) = (\<Sum>t \<leftarrow> ts. if P t then count t else 0)" for P and ts :: "token list"
    by (induction ts) simp_all
  have total': "fst (getTokensInLastMinute now tr) = (\<Sum>t \<leftarrow> tokens tr. if now - timestamp t < 60000 then count t else 0)"
    unfolding total kept by (rule sum_if)
  have e1: "fst (getTokensInLastMinute 59000 (addTokens 0 0 500 Image tokenTracker0)) = 500"
    by (simp add: getTokensInLastMinute_def addTokens_def cleanOldTokens_def tokenTracker0_def)
  have e2: "fst (getTokensInLastMinute 61000 (addTokens 0 0 500 Image tokenTracker0)) = 0"
    by (simp add: getTokensInLastMinute_def addTokens_def cleanOldTokens_def tokenTracker0_def)
  have e3: "fst (getTokensInLastMinute 61000
            (snd (getTokensInLastMinute 59000 (addTokens 0 0 500 Image tokenTracker0)))) = 0"
    by (simp add: getTokensInLastMinute_def addTokens_def cleanOldTokens_def tokenTracker0_def)
  from kept have purged: "\<forall>t \<in> set (tokens tr). 60000 < now - timestamp t \<longrightarrow> t \<notin> set (tokens (snd (getTokensInLastMinute now tr)))"
    by simp
  from kept have young: "\<forall>t \<in> set (tokens tr). now - timestamp t < 60000 \<longrightarrow> t \<in> set (tokens (snd (getTokensInLastMinute now tr)))"
    by simp
  from kept purged young total total' e1 e2 e3 show ?thesis by blast
qed

theorem sliding_window_60s_witness:
  "fst (getTokensInLastMinute 100000
     \<lparr>tokens = [\<lparr>timestamp = 30000, count = 7, type = Audio\<rparr>,
                \<lparr>timestamp = 39999, count = 11, type = Image\<rparr>,
                \<lparr>timestamp = 40001, count = 258, type = Image\<rparr>,
                \<lparr>timestamp = 99000, count = 64, type = Audio\<rparr>],
      audioStartTime = None\<rparr>) = 322"
  using sliding_window_60s [of 100000
     "\<lparr>tokens = [\<lparr>timestamp = 30000, count = 7, type = Audio\<rparr>,
                \<lparr>timestamp = 39999, count = 11, type = Image\<rparr>,
                \<lparr>timestamp = 40001, count = 258, type = Image\<rparr>,
                \<lparr>timestamp = 99000, count = 64, type = Audio\<rparr>],
      audioStartTime = None\<rparr>"]
  by simp


lemma trackAudioTokens_div:
  "trackAudioTokens now nowAdd nowClean tr =
     (if audioStartTime tr = None \<or> audioStartTime tr = Some 0
      then tr\<lparr>audioStartTime := Some now\<rparr>
      else if ((now - the (audioStartTime tr)) * 32) div 1000 > 0
           then (addTokens nowAdd nowClean (((now - the (audioStartTime tr)) * 32) div 1000) Audio tr)
                  \<lparr>audioStartTime := Some now\<rparr>
           else tr)"
  by (simp only: trackAudioTokens_def Let_def floor_audio)

text \<open>
  Claim C3, as the code has it. On a call after the first (the window start \<open>s\<close> is set
  and not 0), with \<open>n = floor (e * 32)\<close> tokens for the \<open>e = (now - s) / 1000\<close> seconds
  elapsed: when \<open>n > 0\<close> one Audio event of count \<open>n\<close> is appended (and the list purged)
  and the window start becomes \<open>now\<close>; when \<open>n \<le> 0\<close> the call changes nothing, so the
  window start stays where it was and the time elapsed so far counts at a later tick.
\<close>

theorem trackAudioTokens_window:
  "audioStartTime tr = Some s \<and> s \<noteq> 0 \<longrightarrow>
     \<lfloor>real_of_int (now - s) / 1000 * 32\<rfloor> = ((now - s) * 32) div 1000
     \<and> (0 < ((now - s) * 32) div 1000 \<longrightarrow>
          trackAudioTokens now nowAdd nowClean tr =
            \<lparr>tokens = filter (\<lambda>t. nowClean - timestamp t < 60000)
                 (tokens tr @ [\<lparr>timestamp = nowAdd, count = ((now - s) * 32) div 1000, type = Audio\<rparr>]),
             audioStartTime = Some now\<rparr>)
     \<and> (((now - s) * 32) div 1000 \<le> 0 \<longrightarrow> trackAudioTokens now nowAdd nowClean tr = tr)"
proof (intro impI, elim conjE)
  assume s: "audioStartTime tr = Some s" and nz: "s \<noteq> 0"
  have emit: "trackAudioTokens now nowAdd nowClean tr =
            \<lparr>tokens = filter (\<lambda>t. nowClean - timestamp t < 60000)
                 (tokens tr @ [\<lparr>timestamp = nowAdd, count = ((now - s) * 32) div 1000, type = Audio\<rparr>]),
             audioStartTime = Some now\<rparr>"
    if "0 < ((now - s) * 32) div 1000"
  proof -
    have "trackAudioTokens now nowAdd nowClean tr =
        (addTokens nowAdd nowClean (((now - s) * 32) div 1000) Audio tr)\<lparr>audioStartTime := Some now\<rparr>"
      using s nz that by (simp add: trackAudioTokens_div)
    also have "\<dots> = \<lparr>tokens = filter (\<lambda>t. nowClean - timestamp t < 60000)
                 (tokens tr @ [\<lparr>timestamp = nowAdd, count = ((now - s) * 32) div 1000, type = Audio\<rparr>]),
             audioStartTime = Some now\<rparr>"
      by (simp add: addTokens_def tokens_cleanOldTokens)
    finally show ?thesis .
  qed
  have keep: "trackAudioTokens now nowAdd nowClean tr = tr" if "((now - s) * 32) div 1000 \<le> 0"
    using s nz that by (simp add: trackAudioTokens_div)
  from emit keep floor_audio [of "now - s"]
  show "\<lfloor>real_of_int (now - s) / 1000 * 32\<rfloor> = ((now - s) * 32) div 1000
     \<and> (0 < ((now - s) * 32) div 1000 \<longrightarrow>
          trackAudioTokens now nowAdd nowClean tr =
            \<lparr>tokens = filter (\<lambda>t. nowClean - timestamp t < 60000)
                 (tokens tr @ [\<lparr>timestamp = nowAdd, count = ((now - s) * 32) div 1000, type = Audio\<rparr>]),
             audioStartTime = Some now\<rparr>)
     \<and> (((now - s) * 32) div 1000 \<le> 0 \<longrightarrow> trackAudioTokens now nowAdd nowClean tr = tr)"
    by blast
qed

theorem trackAudioTokens_window_witness:
  "trackAudioTokens 3000 3000 3000 \<lparr>tokens = [], audioStartTime = Some 1000\<rparr>
     = \<lparr>tokens = [\<lparr>timestamp = 3000, count = 64, type = Audio\<rparr>], audioStartTime = Some 3000\<rparr>
   \<and> trackAudioTokens 1031 1031 1031 \<lparr>tokens = [], audioStartTime = Some 1000\<rparr>
     = \<lparr>tokens = [], audioStartTime = Some 1000\<rparr>"
  using trackAudioTokens_window [of "\<lparr>tokens = [], audioStartTime = Some 1000\<rparr>" 1000 3000 3000 3000]
    trackAudioTokens_window [of "\<lparr>tokens = [], audioStartTime = Some 1000\<rparr>" 1000 1031 1031 1031]
  by simp

text \<open>
  Claim C3 as the specification words it fails: a tick 10 ms after the window start
  yields \<open>floor (0.01 * 32) = 0\<close> tokens and leaves the window start at 1000, not at the
  current time 1010; the next tick, 40 ms after the window start, then emits the token
  for the whole 40 ms, which it would not for the 30 ms since the previous tick.
\<close>

theorem trackAudioTokens_reset_counterexample:
  "\<lfloor>real_of_int (1010 - 1000) / 1000 * 32\<rfloor> = 0
   \<and> audioStartTime (trackAudioTokens 1010 1010 1010 \<lparr>tokens = [], audioStartTime = Some 1000\<rparr>)
       = Some 1000
   \<and> audioStartTime (trackAudioTokens 1010 1010 1010 \<lparr>tokens = [], audioStartTime = Some 1000\<rparr>)
       \<noteq> Some 1010
   \<and> tokens (trackAudioTokens 1040 1040 1040
        (trackAudioTokens 1010 1010 1010 \<lparr>tokens = [], audioStartTime = Some 1000\<rparr>))
       = [\<lparr>timestamp = 1040, count = 1, type = Audio\<rparr>]
   \<and> \<lfloor>real_of_int (1040 - 1010) / 1000 * 32\<rfloor> = 0"
proof -
  have f1: "\<lfloor>real_of_int (1010 - 1000) / 1000 * 32\<rfloor> = 0"
    by (simp only: floor_audio) simp
  have f2: "\<lfloor>real_of_int (1040 - 1010) / 1000 * 32\<rfloor> = 0"
    by (simp only: floor_audio) simp
  have t1: "trackAudioTokens 1010 1010 1010 \<lparr>tokens = [], audioStartTime = Some 1000\<rparr>
      = \<lparr>tokens = [], audioStartTime = Some 1000\<rparr>"
    by (simp add: trackAudioTokens_div)
  have t2: "tokens (trackAudioTokens 1040 1040 1040 \<lparr>tokens = [], audioStartTime = Some 1000\<rparr>)
      = [\<lparr>timestamp = 1040, count = 1, type = Audio\<rparr>]"
    by (simp add: trackAudioTokens_div addTokens_def cleanOldTokens_def)
  from f1 f2 t1 t2 show ?thesis by simp
qed




section \<open>Properties of the sample conversion\<close>

lemma sint_int16: "- 32768 \<le> k \<Longrightarrow> k \<le> 32767 \<Longrightarrow> sint (word_of_int k :: 16 word) = k"
  by (simp add: sint_sbintrunc' signed_take_bit_int_eq_self)

lemma trunc_scaled_range: "- 32768 \<le> trunc (scaled x) \<and> trunc (scaled x) \<le> 32767"
proof -
  have c: "- 1 \<le> clamp x \<and> clamp x \<le> 1"
    by (cases x) auto
  show ?thesis
  proof (cases "clamp x < 0")
    case True
    then have s: "scaled x = clamp x * 32768" by (simp add: scaled_def)
    from c True have "- 32768 \<le> clamp x * 32768" and "clamp x * 32768 < 0" by simp_all
    then have "- 32768 \<le> \<lceil>clamp x * 32768\<rceil>" and "\<lceil>clamp x * 32768\<rceil> \<le> 0"
      by (simp_all add: le_ceiling_iff ceiling_le_iff)
    with True show ?thesis unfolding s trunc_def by simp
  next
    case False
    then have s: "scaled x = clamp x * 32767" by (simp add: scaled_def)
    from c False have "0 \<le> clamp x * 32767" and "clamp x * 32767 \<le> 32767" by simp_all
    then have "0 \<le> \<lfloor>clamp x * 32767\<rfloor>" and "\<lfloor>clamp x * 32767\<rfloor> \<le> 32767"
      by (simp_all add: le_floor_iff floor_le_iff)
    with False show ?thesis unfolding s trunc_def by simp
  qed
qed

lemma convert_one:
  "sint (let s = Math_max (Num (- 1)) (Math_min (Num 1) x)
         in ToInt16 (if lessZero s then scale s 32768 else scale s 32767))
     = (if x = NaN then 0 else trunc (scaled x))"
proof (cases x)
  case NaN
  then show ?thesis by simp
next
  case NegInf
  have "trunc (- 32768) = - 32768" by (simp add: trunc_def)
  with NegInf show ?thesis by (simp add: scaled_def)
next
  case PosInf
  have "trunc 32767 = 32767" by (simp add: trunc_def)
  with PosInf show ?thesis by (simp add: scaled_def)
next
  case (Num a)
  have "Math_max (Num (- 1)) (Math_min (Num 1) (Num a)) = Num (clamp (Num a))"
    by simp
  then have "(let s = Math_max (Num (- 1)) (Math_min (Num 1) (Num a))
              in ToInt16 (if lessZero s then scale s 32768 else scale s 32767))
      = word_of_int (trunc (scaled (Num a)))"
    by (simp add: Let_def scaled_def del: clamp.simps)
  with trunc_scaled_range [of "Num a"] Num show ?thesis
    by (simp add: sint_int16 del: clamp.simps)
qed

text \<open>
  Claim C7. \<open>convertFloat32ToInt16\<close> is total and keeps the length. Each sample that
  is a number or an infinity comes out as the sample clamped to the interval from -1
  to 1 and scaled by 32768 when negative and by 32767 otherwise, the fraction cut off,
  and the 16-bit store does not wrap. \<^verbatim>\<open>NaN\<close> comes out as 0. The samples 1.0, -1.0,
  1.5 and 0.0 give 32767, -32768, 32767 and 0.
\<close>

theorem convertFloat32ToInt16_clamps:
  "length (convertFloat32ToInt16 xs) = length xs
   \<and> (\<forall>i < length xs.
        sint (convertFloat32ToInt16 xs ! i) = (if xs ! i = NaN then 0 else trunc (scaled (xs ! i)))
        \<and> - 1 \<le> clamp (xs ! i) \<and> clamp (xs ! i) \<le> 1)
   \<and> map sint (convertFloat32ToInt16 [Num 1, Num (- 1), Num 1.5, Num 0]) = [32767, - 32768, 32767, 0]"
proof -
  have len: "length (convertFloat32ToInt16 xs) = length xs"
    by (simp add: convertFloat32ToInt16_def)
  have each: "sint (convertFloat32ToInt16 xs ! i) = (if xs ! i = NaN then 0 else trunc (scaled (xs ! i)))"
    if "i < length xs" for i
    using that unfolding convertFloat32ToInt16_def by (simp only: nth_map convert_one)
  have c: "- 1 \<le> clamp x \<and> clamp x \<le> 1" for x
    by (cases x) auto
  have t1: "trunc 32767 = 32767" and t2: "trunc (- 32768) = - 32768" and t3: "trunc 0 = 0"
    by (simp_all add: trunc_def)
  have ex: "map sint (convertFloat32ToInt16 [Num 1, Num (- 1), Num 1.5, Num 0]) = [32767, - 32768, 32767, 0]"
    by (simp add: convertFloat32ToInt16_def t1 t2 t3)
  from len each c ex show ?thesis by blast
qed

theorem convertFloat32ToInt16_clamps_witness:
  "sint (convertFloat32ToInt16 [Num (1 / 2), NaN, Num (- 7)] ! 0) = 16383
   \<and> sint (convertFloat32ToInt16 [Num (1 / 2), NaN, Num (- 7)] ! 1) = 0
   \<and> sint (convertFloat32ToInt16 [Num (1 / 2), NaN, Num (- 7)] ! 2) = - 32768"
proof -
  have a: "trunc (scaled (Num (1 / 2))) = 16383"
    by (simp add: scaled_def trunc_def)
  have b: "trunc (scaled (Num (- 7))) = - 32768"
    by (simp add: scaled_def trunc_def)
  have all: "\<forall>i < 3. sint (convertFloat32ToInt16 [Num (1 / 2), NaN, Num (- 7)] ! i)
      = (if [Num (1 / 2), NaN, Num (- 7)] ! i = NaN then 0
         else trunc (scaled ([Num (1 / 2), NaN, Num (- 7)] ! i)))"
    using convertFloat32ToInt16_clamps [of "[Num (1 / 2), NaN, Num (- 7)]"] by simp
  from all have "sint (convertFloat32ToInt16 [Num (1 / 2), NaN, Num (- 7)] ! 0)
      = trunc (scaled (Num (1 / 2)))"
    by simp
  moreover from all have "sint (convertFloat32ToInt16 [Num (1 / 2), NaN, Num (- 7)] ! 1) = 0"
    by simp
  moreover from all have "sint (convertFloat32ToInt16 [Num (1 / 2), NaN, Num (- 7)] ! 2)
      = trunc (scaled (Num (- 7)))"
    by simp
  ultimately show ?thesis using a b by simp
qed


section \<open>Properties of the audio chunker\<close>

lemma btoa_Man: "btoa (lit ''Man'') = lit ''TWFu''" "btoa (lit ''Ma'') = lit ''TWE=''" "btoa (lit ''M'') = lit ''TQ==''"
  by (simp_all add: lit_def b64char_def)

lemma upt0: "[0..<Suc m] = 0 # map Suc [0..<m]"
  by (simp only: upt_rec [of 0 "Suc m"] map_Suc_upt) simp

lemma slices_step:
  assumes "N \<le> length b" and "0 < (N::nat)"
  shows "map (\<lambda>j. f (take N (drop (j * N) b))) [0..<length b div N]
       = f (take N b) # map (\<lambda>j. f (take N (drop (j * N) (drop N b)))) [0..<length (drop N b) div N]"
proof -
  define m where "m = length (drop N b) div N"
  have m: "length b div N = Suc m"
    using assms by (simp add: le_div_geq m_def)
  have "map (\<lambda>j. f (take N (drop (j * N) b))) [0..<Suc m]
      = f (take N b) # map (\<lambda>j. f (take N (drop (Suc j * N) b))) [0..<m]"
    by (simp only: upt0 list.map map_map o_def) simp
  moreover have "drop (Suc j * N) b = drop (j * N) (drop N b)" for j
    by (simp add: add.commute)
  ultimately show ?thesis
    by (simp only: m m_def [symmetric])
qed

lemma drop_step:
  assumes "N \<le> length b" and "0 < (N::nat)"
  shows "drop (length (drop N b) div N * N) (drop N b) = drop (length b div N * N) b"
proof -
  define m where "m = length (drop N b) div N"
  have m: "length b div N = Suc m"
    using assms by (simp add: le_div_geq m_def)
  have "drop (m * N) (drop N b) = drop (Suc m * N) b"
    by (simp add: add.commute)
  then show ?thesis
    by (simp only: m m_def [symmetric])
qed

lemma drainChunks_resolving:
  assumes "\<forall>k. \<exists>r. sink k = Resolved r"
  shows "drainChunks sink k b sent =
      (sent @ map (\<lambda>j. encodeChunk (take samplesPerChunk (drop (j * samplesPerChunk) b)))
                [0..<length b div samplesPerChunk],
       drop (length b div samplesPerChunk * samplesPerChunk) b, True)"
  using assms
proof (induction sink k b sent rule: drainChunks.induct)
  case (1 sink k audioBuffer sent)
  have pos: "0 < samplesPerChunk" by (simp add: samplesPerChunk_def)
  show ?case
  proof (cases "samplesPerChunk \<le> length audioBuffer")
    case True
    from "1.prems" obtain r where r: "sink k = Resolved r" by blast
    have ih: "drainChunks sink (Suc k) (drop samplesPerChunk audioBuffer)
          (sent @ [encodeChunk (take samplesPerChunk audioBuffer)]) =
        ((sent @ [encodeChunk (take samplesPerChunk audioBuffer)]) @
           map (\<lambda>j. encodeChunk (take samplesPerChunk (drop (j * samplesPerChunk) (drop samplesPerChunk audioBuffer))))
             [0..<length (drop samplesPerChunk audioBuffer) div samplesPerChunk],
         drop (length (drop samplesPerChunk audioBuffer) div samplesPerChunk * samplesPerChunk)
           (drop samplesPerChunk audioBuffer), True)"
      using "1.IH" [OF True refl refl refl r] "1.prems" by simp
    have unfold: "drainChunks sink k audioBuffer sent =
        drainChunks sink (Suc k) (drop samplesPerChunk audioBuffer)
          (sent @ [encodeChunk (take samplesPerChunk audioBuffer)])"
      using True r by (subst drainChunks.simps) (simp add: Let_def)
    show ?thesis
      unfolding unfold ih
      by (simp only: slices_step [OF True pos] drop_step [OF True pos] append_assoc append_Cons append_Nil)
  next
    case False
    then have "length audioBuffer div samplesPerChunk = 0" by simp
    with False show ?thesis by (subst drainChunks.simps) simp
  qed
qed

lemma slices_Suc:
  "map (\<lambda>j. f (take N (drop (j * N) b))) [0..<Suc m]
     = f (take N b) # map (\<lambda>j. f (take N (drop (j * N) (drop N b)))) [0..<m]"
proof -
  have "map (\<lambda>j. f (take N (drop (j * N) b))) [0..<Suc m]
      = f (take N b) # map (\<lambda>j. f (take N (drop (Suc j * N) b))) [0..<m]"
    by (simp only: upt0 list.map map_map o_def) simp
  moreover have "drop (Suc j * N) b = drop (j * N) (drop N b)" for j
    by (simp add: add.commute)
  ultimately show ?thesis by simp
qed

lemma drainChunks_prefix:
  "\<exists>m done. m \<le> length b div samplesPerChunk
     \<and> drainChunks sink k b sent =
         (sent @ map (\<lambda>j. encodeChunk (take samplesPerChunk (drop (j * samplesPerChunk) b))) [0..<m],
          drop (m * samplesPerChunk) b, done)
     \<and> (done \<longrightarrow> m = length b div samplesPerChunk)"
proof (induction sink k b sent rule: drainChunks.induct)
  case (1 sink k audioBuffer sent)
  have pos: "0 < samplesPerChunk" by (simp add: samplesPerChunk_def)
  show ?case
  proof (cases "samplesPerChunk \<le> length audioBuffer")
    case False
    then have "length audioBuffer div samplesPerChunk = 0" by simp
    with False have "0 \<le> length audioBuffer div samplesPerChunk
      \<and> drainChunks sink k audioBuffer sent =
         (sent @ map (\<lambda>j. encodeChunk (take samplesPerChunk (drop (j * samplesPerChunk) audioBuffer))) [0..<0],
          drop (0 * samplesPerChunk) audioBuffer, True)
      \<and> (True \<longrightarrow> 0 = length audioBuffer div samplesPerChunk)"
      by (subst drainChunks.simps) simp
    then show ?thesis by blast
  next
    case True
    have n: "length audioBuffer div samplesPerChunk
        = Suc (length (drop samplesPerChunk audioBuffer) div samplesPerChunk)"
      using True pos by (simp add: le_div_geq)
    show ?thesis
    proof (cases "sink k")
      case (Rejected msg)
      have "drainChunks sink k audioBuffer sent =
          (sent @ [encodeChunk (take samplesPerChunk audioBuffer)], drop samplesPerChunk audioBuffer, False)"
        using True Rejected by (subst drainChunks.simps) (simp add: Let_def)
      then have "Suc 0 \<le> length audioBuffer div samplesPerChunk
        \<and> drainChunks sink k audioBuffer sent =
         (sent @ map (\<lambda>j. encodeChunk (take samplesPerChunk (drop (j * samplesPerChunk) audioBuffer))) [0..<Suc 0],
          drop (Suc 0 * samplesPerChunk) audioBuffer, False)
        \<and> (False \<longrightarrow> Suc 0 = length audioBuffer div samplesPerChunk)"
        using n by simp
      then show ?thesis by blast
    next
      case (Resolved r)
      from "1.IH" [OF True refl refl refl Resolved]
      obtain m d where m: "m \<le> length (drop samplesPerChunk audioBuffer) div samplesPerChunk"
        and run: "drainChunks sink (Suc k) (drop samplesPerChunk audioBuffer)
            (sent @ [encodeChunk (take samplesPerChunk audioBuffer)]) =
          ((sent @ [encodeChunk (take samplesPerChunk audioBuffer)]) @
             map (\<lambda>j. encodeChunk (take samplesPerChunk (drop (j * samplesPerChunk) (drop samplesPerChunk audioBuffer))))
               [0..<m],
           drop (m * samplesPerChunk) (drop samplesPerChunk audioBuffer), d)"
        and fin: "d \<longrightarrow> m = length (drop samplesPerChunk audioBuffer) div samplesPerChunk"
        by blast
      have unfold: "drainChunks sink k audioBuffer sent =
          drainChunks sink (Suc k) (drop samplesPerChunk audioBuffer)
            (sent @ [encodeChunk (take samplesPerChunk audioBuffer)])"
        using True Resolved by (subst drainChunks.simps) (simp add: Let_def)
      have dr: "drop (m * samplesPerChunk) (drop samplesPerChunk audioBuffer)
          = drop (Suc m * samplesPerChunk) audioBuffer"
        by (simp add: add.commute)
      have "Suc m \<le> length audioBuffer div samplesPerChunk
        \<and> drainChunks sink k audioBuffer sent =
         (sent @ map (\<lambda>j. encodeChunk (take samplesPerChunk (drop (j * samplesPerChunk) audioBuffer))) [0..<Suc m],
          drop (Suc m * samplesPerChunk) audioBuffer, d)
        \<and> (d \<longrightarrow> Suc m = length audioBuffer div samplesPerChunk)"
        using m fin unfolding unfold run n dr
        by (simp only: slices_Suc append_assoc append_Cons append_Nil) simp
      then show ?thesis by blast
    qed
  qed
qed

lemma encodeChunk_payload:
  "encodeChunk chunk =
     \<lparr>data = btoa (map unat (buffer (convertFloat32ToInt16 chunk))),
      mimeType = lit ''audio/pcm;rate=24000''\<rparr>"
  by (simp add: encodeChunk_def Let_def arrayBufferToBase64_def)

text \<open>
  The loop in general. In every invocation the payloads handed to \<^verbatim>\<open>invoke\<close> are, in
  order, the base64 texts of the 16-bit samples of the first \<open>m\<close> consecutive slices of
  \<open>samplesPerChunk = SAMPLE_RATE * 0.1 = 2400\<close> samples from the front of the buffer
  (the old buffer followed by the new samples), one payload per slice removed, none
  skipped and none merged, and the buffer left is what follows these \<open>m\<close> slices; when
  the loop runs to its end, \<open>m\<close> is the number of full slices the buffer held. When the
  calls to \<^verbatim>\<open>invoke\<close> resolve, the loop does run to its end, every full slice is handed
  over and the buffer left is shorter than one chunk. From an empty buffer, 2400 samples
  then give one payload and an empty buffer, and 5000 samples give two payloads and a
  buffer of 200 samples.
\<close>

lemma onaudioprocess_chunks:
  "(\<exists>m done. m \<le> length (audioBuffer @ inputData) div samplesPerChunk
      \<and> onaudioprocess sink audioBuffer inputData =
          (map (\<lambda>j. \<lparr>data = btoa (map unat (buffer (convertFloat32ToInt16 (take samplesPerChunk (drop (j * samplesPerChunk) (audioBuffer @ inputData)))))),
                  mimeType = lit ''audio/pcm;rate=24000''\<rparr>)
             [0..<m],
           drop (m * samplesPerChunk) (audioBuffer @ inputData), done)
      \<and> (done \<longrightarrow> m = length (audioBuffer @ inputData) div samplesPerChunk))
   \<and> ((\<forall>k. \<exists>r. sink k = Resolved r) \<longrightarrow>
     fst (onaudioprocess sink audioBuffer inputData)
       = map (\<lambda>j. \<lparr>data = btoa (map unat (buffer (convertFloat32ToInt16 (take samplesPerChunk (drop (j * samplesPerChunk) (audioBuffer @ inputData)))))),
                  mimeType = lit ''audio/pcm;rate=24000''\<rparr>)
           [0..<length (audioBuffer @ inputData) div samplesPerChunk]
     \<and> length (fst (onaudioprocess sink audioBuffer inputData))
         = (length audioBuffer + length inputData) div samplesPerChunk
     \<and> fst (snd (onaudioprocess sink audioBuffer inputData))
         = drop (length (audioBuffer @ inputData) div samplesPerChunk * samplesPerChunk) (audioBuffer @ inputData)
     \<and> length (fst (snd (onaudioprocess sink audioBuffer inputData)))
         = (length audioBuffer + length inputData) mod samplesPerChunk
     \<and> length (fst (snd (onaudioprocess sink audioBuffer inputData))) < samplesPerChunk
     \<and> snd (snd (onaudioprocess sink audioBuffer inputData))
     \<and> real samplesPerChunk = real SAMPLE_RATE * (1 / 10)
     \<and> (audioBuffer = [] \<and> length inputData = 2400 \<longrightarrow>
          length (fst (onaudioprocess sink audioBuffer inputData)) = 1
          \<and> fst (snd (onaudioprocess sink audioBuffer inputData)) = [])
     \<and> (audioBuffer = [] \<and> length inputData = 5000 \<longrightarrow>
          length (fst (onaudioprocess sink audioBuffer inputData)) = 2
          \<and> length (fst (snd (onaudioprocess sink audioBuffer inputData))) = 200))"
proof (rule conjI)
  show "\<exists>m done. m \<le> length (audioBuffer @ inputData) div samplesPerChunk
      \<and> onaudioprocess sink audioBuffer inputData =
          (map (\<lambda>j. \<lparr>data = btoa (map unat (buffer (convertFloat32ToInt16 (take samplesPerChunk (drop (j * samplesPerChunk) (audioBuffer @ inputData)))))),
                  mimeType = lit ''audio/pcm;rate=24000''\<rparr>)
             [0..<m],
           drop (m * samplesPerChunk) (audioBuffer @ inputData), done)
      \<and> (done \<longrightarrow> m = length (audioBuffer @ inputData) div samplesPerChunk)"
    using drainChunks_prefix [of "audioBuffer @ inputData" sink 0 "[]"]
    by (simp add: onaudioprocess_def encodeChunk_payload)
next
  show "(\<forall>k. \<exists>r. sink k = Resolved r) \<longrightarrow>
     fst (onaudioprocess sink audioBuffer inputData)
       = map (\<lambda>j. \<lparr>data = btoa (map unat (buffer (convertFloat32ToInt16 (take samplesPerChunk (drop (j * samplesPerChunk) (audioBuffer @ inputData)))))),
                  mimeType = lit ''audio/pcm;rate=24000''\<rparr>)
           [0..<length (audioBuffer @ inputData) div samplesPerChunk]
     \<and> length (fst (onaudioprocess sink audioBuffer inputData))
         = (length audioBuffer + length inputData) div samplesPerChunk
     \<and> fst (snd (onaudioprocess sink audioBuffer inputData))
         = drop (length (audioBuffer @ inputData) div samplesPerChunk * samplesPerChunk) (audioBuffer @ inputData)
     \<and> length (fst (snd (onaudioprocess sink audioBuffer inputData)))
         = (length audioBuffer + length inputData) mod samplesPerChunk
     \<and> length (fst (snd (onaudioprocess sink audioBuffer inputData))) < samplesPerChunk
     \<and> snd (snd (onaudioprocess sink audioBuffer inputData))
     \<and> real samplesPerChunk = real SAMPLE_RATE * (1 / 10)
     \<and> (audioBuffer = [] \<and> length inputData = 2400 \<longrightarrow>
          length (fst (onaudioprocess sink audioBuffer inputData)) = 1
          \<and> fst (snd (onaudioprocess sink audioBuffer inputData)) = [])
     \<and> (audioBuffer = [] \<and> length inputData = 5000 \<longrightarrow>
          length (fst (onaudioprocess sink audioBuffer inputData)) = 2
          \<and> length (fst (snd (onaudioprocess sink audioBuffer inputData))) = 200)"
  proof
  assume res: "\<forall>k. \<exists>r. sink k = Resolved r"
  define b where "b = audioBuffer @ inputData"
  define n where "n = length b div samplesPerChunk"
  have run: "onaudioprocess sink audioBuffer inputData =
      (map (\<lambda>j. \<lparr>data = btoa (map unat (buffer (convertFloat32ToInt16 (take samplesPerChunk (drop (j * samplesPerChunk) b))))),
                  mimeType = lit ''audio/pcm;rate=24000''\<rparr>) [0..<n],
       drop (n * samplesPerChunk) b, True)"
    unfolding onaudioprocess_def b_def n_def
    by (simp only: drainChunks_resolving [OF res] append_Nil encodeChunk_payload)
  have lb: "length b = length audioBuffer + length inputData"
    by (simp add: b_def)
  have sent: "length (fst (onaudioprocess sink audioBuffer inputData))
      = (length audioBuffer + length inputData) div samplesPerChunk"
    by (simp add: run n_def lb)
  have rest: "length (fst (snd (onaudioprocess sink audioBuffer inputData)))
      = (length audioBuffer + length inputData) mod samplesPerChunk"
    by (simp add: run n_def minus_div_mult_eq_mod lb)
  have less: "length (fst (snd (onaudioprocess sink audioBuffer inputData))) < samplesPerChunk"
    unfolding rest by (simp add: samplesPerChunk_def)
  have rate: "real samplesPerChunk = real SAMPLE_RATE * (1 / 10)"
    by (simp add: samplesPerChunk_def SAMPLE_RATE_def)
  have e1: "length (fst (onaudioprocess sink audioBuffer inputData)) = 1
          \<and> fst (snd (onaudioprocess sink audioBuffer inputData)) = []"
    if "audioBuffer = [] \<and> length inputData = 2400"
  proof -
    from that have "length (fst (onaudioprocess sink audioBuffer inputData)) = 1"
      and "length (fst (snd (onaudioprocess sink audioBuffer inputData))) = 0"
      unfolding sent rest by (simp_all add: samplesPerChunk_def)
    then show ?thesis by simp
  qed
  have e2: "length (fst (onaudioprocess sink audioBuffer inputData)) = 2
          \<and> length (fst (snd (onaudioprocess sink audioBuffer inputData))) = 200"
    if "audioBuffer = [] \<and> length inputData = 5000"
    using that unfolding sent rest by (simp add: samplesPerChunk_def)
  have r1: "fst (onaudioprocess sink audioBuffer inputData)
       = map (\<lambda>j. \<lparr>data = btoa (map unat (buffer (convertFloat32ToInt16 (take samplesPerChunk (drop (j * samplesPerChunk) (audioBuffer @ inputData)))))),
                  mimeType = lit ''audio/pcm;rate=24000''\<rparr>)
           [0..<length (audioBuffer @ inputData) div samplesPerChunk]"
    by (simp add: run n_def b_def)
  have r2: "fst (snd (onaudioprocess sink audioBuffer inputData))
         = drop (length (audioBuffer @ inputData) div samplesPerChunk * samplesPerChunk) (audioBuffer @ inputData)"
    by (simp add: run n_def b_def)
  have r3: "snd (snd (onaudioprocess sink audioBuffer inputData))"
    by (simp add: run)
  from r1 r2 r3 sent rest less rate e1 e2
  show "fst (onaudioprocess sink audioBuffer inputData)
       = map (\<lambda>j. \<lparr>data = btoa (map unat (buffer (convertFloat32ToInt16 (take samplesPerChunk (drop (j * samplesPerChunk) (audioBuffer @ inputData)))))),
                  mimeType = lit ''audio/pcm;rate=24000''\<rparr>)
           [0..<length (audioBuffer @ inputData) div samplesPerChunk]
     \<and> length (fst (onaudioprocess sink audioBuffer inputData))
         = (length audioBuffer + length inputData) div samplesPerChunk
     \<and> fst (snd (onaudioprocess sink audioBuffer inputData))
         = drop (length (audioBuffer @ inputData) div samplesPerChunk * samplesPerChunk) (audioBuffer @ inputData)
     \<and> length (fst (snd (onaudioprocess sink audioBuffer inputData)))
         = (length audioBuffer + length inputData) mod samplesPerChunk
     \<and> length (fst (snd (onaudioprocess sink audioBuffer inputData))) < samplesPerChunk
     \<and> snd (snd (onaudioprocess sink audioBuffer inputData))
     \<and> real samplesPerChunk = real SAMPLE_RATE * (1 / 10)
     \<and> (audioBuffer = [] \<and> length inputData = 2400 \<longrightarrow>
          length (fst (onaudioprocess sink audioBuffer inputData)) = 1
          \<and> fst (snd (onaudioprocess sink audioBuffer inputData)) = [])
     \<and> (audioBuffer = [] \<and> length inputData = 5000 \<longrightarrow>
          length (fst (onaudioprocess sink audioBuffer inputData)) = 2
          \<and> length (fst (snd (onaudioprocess sink audioBuffer inputData))) = 200)"
    by blast
  qed
qed

lemma onaudioprocess_chunks_example:
  "length (fst (onaudioprocess (\<lambda>k. Resolved \<lparr>success = True, error = None\<rparr>) []
       (replicate 5000 (Num 0)))) = 2
   \<and> length (fst (snd (onaudioprocess (\<lambda>k. Resolved \<lparr>success = True, error = None\<rparr>) []
       (replicate 5000 (Num 0))))) = 200
   \<and> length (fst (onaudioprocess (\<lambda>k. Resolved \<lparr>success = False, error = None\<rparr>)
       (replicate 2000 (Num 0)) (replicate 4096 (Num 1)))) = 2
   \<and> length (fst (snd (onaudioprocess (\<lambda>k. Resolved \<lparr>success = False, error = None\<rparr>)
       (replicate 2000 (Num 0)) (replicate 4096 (Num 1))))) = 1296"
  using onaudioprocess_chunks [where sink = "\<lambda>k. Resolved \<lparr>success = True, error = None\<rparr>"
        and audioBuffer = "[]" and inputData = "replicate 5000 (Num 0)"]
    onaudioprocess_chunks [where sink = "\<lambda>k. Resolved \<lparr>success = False, error = None\<rparr>"
        and audioBuffer = "replicate 2000 (Num 0)" and inputData = "replicate 4096 (Num 1)"]
  by (simp add: samplesPerChunk_def)






lemma encodeChunk_example:
  "encodeChunk [Num 1, Num (- 1), Num (1 / 2)]
     = \<lparr>data = lit ''/38AgP8/'', mimeType = lit ''audio/pcm;rate=24000''\<rparr>"
proof -
  have t: "trunc 32767 = 32767" "trunc (- 32768) = - 32768" "trunc (32767 / 2) = 16383"
    by (simp_all add: trunc_def)
  have c: "convertFloat32ToInt16 [Num 1, Num (- 1), Num (1 / 2)] = [32767, - 32768, 16383]"
    by (simp add: convertFloat32ToInt16_def t)
  have b: "buffer [32767, - 32768, 16383] = [255, 127, 0, 128, 255, 63]"
    by (simp add: buffer_def)
  show ?thesis
    by (simp add: encodeChunk_def Let_def c b arrayBufferToBase64_def b64char_def lit_def)
qed

text \<open>
  A ScriptProcessor of buffer size 4096 delivers 4096 samples at a time; after four
  callbacks whose calls to \<^verbatim>\<open>invoke\<close> resolve, 1984 samples are left.
\<close>

lemma backlog_after_four_callbacks:
  "fst (snd (onaudioprocess (\<lambda>k. Resolved \<lparr>success = True, error = None\<rparr>)
     (fst (snd (onaudioprocess (\<lambda>k. Resolved \<lparr>success = True, error = None\<rparr>)
       (fst (snd (onaudioprocess (\<lambda>k. Resolved \<lparr>success = True, error = None\<rparr>)
         (fst (snd (onaudioprocess (\<lambda>k. Resolved \<lparr>success = True, error = None\<rparr>)
            [] (replicate 4096 (Num 0)))))
         (replicate 4096 (Num 0)))))
       (replicate 4096 (Num 0)))))
     (replicate 4096 (Num 0)))) = replicate 1984 (Num 0)"
proof -
  have res: "\<forall>k. \<exists>r. (\<lambda>k. Resolved \<lparr>success = True, error = None\<rparr>) k = Resolved r" by simp
  have step: "fst (snd (onaudioprocess (\<lambda>k. Resolved \<lparr>success = True, error = None\<rparr>)
        (replicate a (Num 0)) (replicate 4096 (Num 0))))
      = replicate (a + 4096 - (a + 4096) div 2400 * 2400) (Num 0)" for a
    unfolding onaudioprocess_def drainChunks_resolving [OF res]
    by (simp add: samplesPerChunk_def replicate_add [symmetric])
  have s0: "fst (snd (onaudioprocess (\<lambda>k. Resolved \<lparr>success = True, error = None\<rparr>)
        [] (replicate 4096 (Num 0)))) = replicate 1696 (Num 0)"
    using step [of 0] by simp
  show ?thesis
    unfolding s0 by (simp add: step)
qed


section \<open>Properties of the text messages\<close>

lemma trim_Nil_iff: "trim t = [] \<longleftrightarrow> (\<forall>c \<in> set t. isWhiteSpace c)"
proof -
  have "trim t = [] \<longleftrightarrow> (\<forall>c \<in> set (dropWhile isWhiteSpace t). isWhiteSpace c)"
    by (simp add: trim_def dropWhile_eq_Nil_conv)
  also have "\<dots> \<longleftrightarrow> dropWhile isWhiteSpace t = []"
  proof
    assume all: "\<forall>c \<in> set (dropWhile isWhiteSpace t). isWhiteSpace c"
    show "dropWhile isWhiteSpace t = []"
    proof (rule ccontr)
      assume ne: "dropWhile isWhiteSpace t \<noteq> []"
      then have "\<not> isWhiteSpace (hd (dropWhile isWhiteSpace t))"
        by (rule hd_dropWhile)
      moreover from ne have "hd (dropWhile isWhiteSpace t) \<in> set (dropWhile isWhiteSpace t)"
        by (rule hd_in_set)
      ultimately show False using all by blast
    qed
  next
    assume "dropWhile isWhiteSpace t = []"
    then show "\<forall>c \<in> set (dropWhile isWhiteSpace t). isWhiteSpace c"
      by (auto dest: set_dropWhileD)
  qed
  also have "\<dots> \<longleftrightarrow> (\<forall>c \<in> set t. isWhiteSpace c)"
    by (simp add: dropWhile_eq_Nil_conv)
  finally show ?thesis .
qed

text \<open>
  Claim C10. A text that is absent, empty or made of white space only is answered with
  \<^verbatim>\<open>{success: false, error: 'Empty message'}\<close> and \<^verbatim>\<open>invoke\<close> is not called at all;
  whenever \<^verbatim>\<open>invoke\<close> is called, it is called once, with the text, and the text is not
  empty and holds a character that is not white space.
\<close>

theorem sendTextMessage_empty:
  "((text = None \<or> (\<exists>t. text = Some t \<and> (\<forall>c \<in> set t. isWhiteSpace c))) \<longrightarrow>
      sendTextMessage text invoke = (\<lparr>success = False, error = Some (lit ''Empty message'')\<rparr>, []))
   \<and> (snd (sendTextMessage text invoke) \<noteq> [] \<longrightarrow>
        (\<exists>t. text = Some t \<and> t \<noteq> [] \<and> (\<exists>c \<in> set t. \<not> isWhiteSpace c)
             \<and> snd (sendTextMessage text invoke) = [t]))"
proof (intro conjI impI)
  assume "text = None \<or> (\<exists>t. text = Some t \<and> (\<forall>c \<in> set t. isWhiteSpace c))"
  then show "sendTextMessage text invoke = (\<lparr>success = False, error = Some (lit ''Empty message'')\<rparr>, [])"
    by (auto simp: sendTextMessage_def trim_Nil_iff)
next
  assume called: "snd (sendTextMessage text invoke) \<noteq> []"
  then obtain t where t: "text = Some t" "t \<noteq> []" "trim t \<noteq> []"
    by (cases "text") (auto simp: sendTextMessage_def split: if_splits)
  then have "\<exists>c \<in> set t. \<not> isWhiteSpace c"
    by (simp add: trim_Nil_iff)
  moreover from t have "snd (sendTextMessage text invoke) = [t]"
    by (simp add: sendTextMessage_def split: invoke_outcome.splits)
  ultimately show "\<exists>t. text = Some t \<and> t \<noteq> [] \<and> (\<exists>c \<in> set t. \<not> isWhiteSpace c)
             \<and> snd (sendTextMessage text invoke) = [t]"
    using t by blast
qed

theorem sendTextMessage_empty_witness:
  "sendTextMessage (Some (lit ''  '')) (\<lambda>t. Resolved \<lparr>success = True, error = None\<rparr>)
     = (\<lparr>success = False, error = Some (lit ''Empty message'')\<rparr>, [])
   \<and> sendTextMessage None (\<lambda>t. Resolved \<lparr>success = True, error = None\<rparr>)
     = (\<lparr>success = False, error = Some (lit ''Empty message'')\<rparr>, [])
   \<and> snd (sendTextMessage (Some (lit '' hi'')) (\<lambda>t. Resolved \<lparr>success = True, error = None\<rparr>))
     = [lit '' hi'']"
proof -
  have ws: "\<forall>c \<in> set (lit ''  ''). isWhiteSpace c"
    by (simp add: lit_def isWhiteSpace_def)
  have called: "snd (sendTextMessage (Some (lit '' hi'')) (\<lambda>t. Resolved \<lparr>success = True, error = None\<rparr>)) \<noteq> []"
    by (simp add: sendTextMessage_def trim_def lit_def isWhiteSpace_def)
  show ?thesis
    using sendTextMessage_empty [of "Some (lit ''  '')" "\<lambda>t. Resolved \<lparr>success = True, error = None\<rparr>"]
      sendTextMessage_empty [of None "\<lambda>t. Resolved \<lparr>success = True, error = None\<rparr>"]
      sendTextMessage_empty [of "Some (lit '' hi'')" "\<lambda>t. Resolved \<lparr>success = True, error = None\<rparr>"]
      ws called
    by auto
qed


section \<open>Properties of the screenshot capture\<close>

lemma sendImage_cases:
  "sendImage env q st = (out, st') \<Longrightarrow>
     (st' = st \<and> out \<in> {BlobFailed, InvalidBase64, SendRejected, SendFailed, Threw})
     \<or> (\<exists>d r w h. toBlob env q \<and> base64data env q = Some d \<and> 100 \<le> length d
           \<and> sendImageContent env d = Resolved r \<and> success r
           \<and> offscreenCanvas st = Some (w, h) \<and> out = Sent (calculateImageTokens w h)
           \<and> st' = st\<lparr>tokenTracker :=
                        addTokens (tAdd env) (tClean env) (calculateImageTokens w h) Image (tokenTracker st),
                      lastScreenshotSentTime := tSent env\<rparr>)"
  by (auto simp: sendImage_def Let_def split: if_splits option.splits invoke_outcome.splits prod.splits)

lemma sendImage_lastSentDiffData [simp]:
  "lastSentDiffData (snd (sendImage env q st)) = lastSentDiffData st"
  using sendImage_cases [of env q st "fst (sendImage env q st)" "snd (sendImage env q st)"]
  by auto

lemma sendImage_not_gated:
  "fst (sendImage env q st) \<noteq> ScreenUnchanged \<and> fst (sendImage env q st) \<noteq> MinIntervalNotMet"
  using sendImage_cases [of env q st "fst (sendImage env q st)" "snd (sendImage env q st)"]
  by auto

lemma shouldThrottle_tracker:
  "snd (shouldThrottle now ls tr) = tr \<or> snd (shouldThrottle now ls tr) = cleanOldTokens now tr"
  by (auto simp: shouldThrottle_def Let_def getTokensInLastMinute_def split: option.splits prod.splits)

lemma capture_baseline_None:
  assumes "lastSentDiffData st = None"
  shows "lastSentDiffData (snd (captureScreenshot env iq man st)) = None
    \<and> fst (captureScreenshot env iq man st) \<noteq> ScreenUnchanged
    \<and> fst (captureScreenshot env iq man st) \<noteq> MinIntervalNotMet"
  using assms sendImage_not_gated
  by (auto simp: captureScreenshot_def Let_def split: prod.splits)

lemma step_baseline_None:
  assumes "lastSentDiffData st = None"
  shows "lastSentDiffData (snd (step e st)) = None
    \<and> fst (step e st) \<noteq> Some ScreenUnchanged \<and> fst (step e st) \<noteq> Some MinIntervalNotMet"
proof (cases e)
  case (Capture env iq man)
  with capture_baseline_None [OF assms, of env iq man] show ?thesis
    by (cases "captureScreenshot env iq man st") simp
qed (use assms in \<open>simp_all add: startCapture_def stopCapture_def\<close>)

lemma run_baseline_None:
  assumes "lastSentDiffData st = None"
  shows "lastSentDiffData (snd (run es st)) = None
    \<and> ScreenUnchanged \<notin> set (fst (run es st)) \<and> MinIntervalNotMet \<notin> set (fst (run es st))"
  using assms
proof (induction es arbitrary: st)
  case Nil
  then show ?case by simp
next
  case (Cons e es)
  from step_baseline_None [OF Cons.prems, of e]
  have s: "lastSentDiffData (snd (step e st)) = None"
    and o: "fst (step e st) \<noteq> Some ScreenUnchanged" "fst (step e st) \<noteq> Some MinIntervalNotMet"
    by simp_all
  from Cons.IH [OF s] o show ?case
    by (auto split: prod.splits option.splits)
qed

lemma capture_manual_baseline:
  "lastSentDiffData (snd (captureScreenshot env iq True st)) = lastSentDiffData st"
  by (auto simp: captureScreenshot_def Let_def split: prod.splits)

lemma capture_baseline_changes:
  assumes "lastSentDiffData (snd (captureScreenshot env iq man st)) \<noteq> lastSentDiffData st"
  shows "lastSentDiffData st \<noteq> None \<and> \<not> man"
  using assms capture_baseline_None [of st env iq man] capture_manual_baseline [of env iq st]
  by (cases man; cases "lastSentDiffData st") auto

text \<open>
  Claim C2. \<^verbatim>\<open>lastSentDiffData\<close> is assigned only where it is already set: a capture
  that changes it is an automated one that found it set. So an automated capture that
  begins with \<^verbatim>\<open>null\<close> ends with \<^verbatim>\<open>null\<close> and is stopped neither by the change ratio
  nor by the minimum interval; and since the module starts with \<^verbatim>\<open>null\<close>, in every
  session (any sequence of starts, stops, captures, audio ticks and changes of the
  settings) it is \<^verbatim>\<open>null\<close> at the end and no capture was stopped by either gate.
\<close>

theorem lastSentDiffData_stays_null:
  "(lastSentDiffData st = None \<longrightarrow>
      lastSentDiffData (snd (captureScreenshot env iq False st)) = None
      \<and> fst (captureScreenshot env iq False st) \<noteq> ScreenUnchanged
      \<and> fst (captureScreenshot env iq False st) \<noteq> MinIntervalNotMet)
   \<and> (lastSentDiffData (snd (captureScreenshot env iq man st)) \<noteq> lastSentDiffData st \<longrightarrow>
        lastSentDiffData st \<noteq> None \<and> \<not> man)
   \<and> lastSentDiffData (renderer0 ls) = None
   \<and> lastSentDiffData (snd (run es (renderer0 ls))) = None
   \<and> ScreenUnchanged \<notin> set (fst (run es (renderer0 ls)))
   \<and> MinIntervalNotMet \<notin> set (fst (run es (renderer0 ls)))"
proof -
  have init: "lastSentDiffData (renderer0 ls) = None"
    by (simp add: renderer0_def)
  from capture_baseline_None [of st env iq False] capture_baseline_changes [of env iq man st]
    init run_baseline_None [OF init, of es]
  show ?thesis by blast
qed

lemma example_first:
  "captureScreenshot (exampleEnv 1500 greyFrame True) (lit ''medium'') False
       (startCapture True (renderer0 settingsOff))
   = (Sent 1548,
      \<lparr>mediaStream = True,
       tokenTracker = \<lparr>tokens = [\<lparr>timestamp = 1540, count = 1548, type = Image\<rparr>], audioStartTime = None\<rparr>,
       storage = settingsOff, hiddenVideo = True, offscreenCanvas = Some (1920, 1080),
       lastSentDiffData = None, lastScreenshotSentTime = 1540\<rparr>)"
  by (simp add: captureScreenshot_def sendImage_def exampleEnv_def startCapture_def renderer0_def
      settingsOff_def shouldThrottle_def reset_def tokenTracker0_def Let_def addTokens_def
      cleanOldTokens_def calculateImageTokens_def ceiling_divide_eq_div_numeral)

lemma example_second:
  "captureScreenshot (exampleEnv 6500 greyFrame True) (lit ''medium'') False
      \<lparr>mediaStream = True,
       tokenTracker = \<lparr>tokens = [\<lparr>timestamp = 1540, count = 1548, type = Image\<rparr>], audioStartTime = None\<rparr>,
       storage = settingsOff, hiddenVideo = True, offscreenCanvas = Some (1920, 1080),
       lastSentDiffData = None, lastScreenshotSentTime = 1540\<rparr>
   = (Sent 1548,
      \<lparr>mediaStream = True,
       tokenTracker = \<lparr>tokens = [\<lparr>timestamp = 1540, count = 1548, type = Image\<rparr>,
                                  \<lparr>timestamp = 6540, count = 1548, type = Image\<rparr>], audioStartTime = None\<rparr>,
       storage = settingsOff, hiddenVideo = True, offscreenCanvas = Some (1920, 1080),
       lastSentDiffData = None, lastScreenshotSentTime = 6540\<rparr>)"
  by (simp add: captureScreenshot_def sendImage_def exampleEnv_def 
      settingsOff_def shouldThrottle_def Let_def addTokens_def
      cleanOldTokens_def calculateImageTokens_def ceiling_divide_eq_div_numeral)

theorem lastSentDiffData_stays_null_witness:
  "lastSentDiffData (snd (captureScreenshot (exampleEnv 1500 greyFrame True) (lit ''medium'') False
       (startCapture True (renderer0 settingsOff)))) = None
   \<and> fst (captureScreenshot (exampleEnv 1500 greyFrame True) (lit ''medium'') False
       (startCapture True (renderer0 settingsOff))) = Sent 1548"
proof -
  have n: "lastSentDiffData (startCapture True (renderer0 settingsOff)) = None"
    by (simp add: startCapture_def renderer0_def)
  from lastSentDiffData_stays_null [of "startCapture True (renderer0 settingsOff)"
      "exampleEnv 1500 greyFrame True" "lit ''medium''" False settingsOff "[]"] n
  have "lastSentDiffData (snd (captureScreenshot (exampleEnv 1500 greyFrame True) (lit ''medium'') False
       (startCapture True (renderer0 settingsOff)))) = None"
    by blast
  then show ?thesis by (simp add: example_first)
qed

text \<open>
  Claim C1. The specification has the first automated frame accepted, a frame identical
  to the last transmitted one rejected, and a frame accepted exactly when at least 5% of
  its pixels changed against the last transmitted frame. The code accepts the first
  frame, but it records the frame sent only inside the branch that compares with a frame
  recorded before, so nothing is ever recorded: in a fresh session with throttling off,
  the same grey frame captured at 1.5 s and again at 6.5 s is sent both times (1548
  tokens each for 1920 by 1080), and no fingerprint is held afterwards.
\<close>

theorem identical_frame_sent_again:
  "fst (run [StartCapture True,
             Capture (exampleEnv 1500 greyFrame True) (lit ''medium'') False,
             Capture (exampleEnv 6500 greyFrame True) (lit ''medium'') False]
          (renderer0 settingsOff)) = [Sent 1548, Sent 1548]
   \<and> lastSentDiffData (snd (run [StartCapture True,
             Capture (exampleEnv 1500 greyFrame True) (lit ''medium'') False,
             Capture (exampleEnv 6500 greyFrame True) (lit ''medium'') False]
          (renderer0 settingsOff))) = None"
  by (simp add: example_first example_second)

lemma purge_then_query:
  assumes "t0 \<le> t"
  shows "fst (getTokensInLastMinute t (cleanOldTokens t0 tr)) = fst (getTokensInLastMinute t tr)"
proof -
  have "filter (\<lambda>x. t - timestamp x < 60000) (filter (\<lambda>x. t0 - timestamp x < 60000) xs)
      = filter (\<lambda>x. t - timestamp x < 60000) xs" for xs :: "token list"
    using assms by (induction xs) auto
  then show ?thesis
    by (simp add: getTokensInLastMinute_def Let_def tokens_cleanOldTokens)
qed

lemma capture_cases:
  assumes "captureScreenshot env iq man st = (out, st')"
  shows "(out \<in> {NoMediaStream, RateLimited, VideoNotReady, Threw, ScreenUnchanged, MinIntervalNotMet}
           \<and> (tokenTracker st' = tokenTracker st
                \<or> tokenTracker st' = cleanOldTokens (tThrottle env) (tokenTracker st)))
       \<or> (\<exists>st2. sendImage env (qualityValue iq) st2 = (out, st')
             \<and> (tokenTracker st2 = tokenTracker st
                  \<or> tokenTracker st2 = cleanOldTokens (tThrottle env) (tokenTracker st)))"
proof -
  define tr where "tr = (if man then tokenTracker st
      else snd (shouldThrottle (tThrottle env) (storage st) (tokenTracker st)))"
  have tr: "tr = tokenTracker st \<or> tr = cleanOldTokens (tThrottle env) (tokenTracker st)"
    using shouldThrottle_tracker [of "tThrottle env" "storage st" "tokenTracker st"]
    by (auto simp: tr_def)
  define thr where "thr = (if man then False
      else fst (shouldThrottle (tThrottle env) (storage st) (tokenTracker st)))"
  have pair: "(if man then (False, tokenTracker st)
        else shouldThrottle (tThrottle env) (storage st) (tokenTracker st)) = (thr, tr)"
    by (simp add: thr_def tr_def)
  from assms tr show ?thesis
    unfolding captureScreenshot_def pair Let_def
    by (auto split: if_splits option.splits)
qed

text \<open>
  Claim C9. In the send attempt (\<open>sendImage\<close>) an event is added to the tracker only
  when \<^verbatim>\<open>invoke\<close> resolved with \<^verbatim>\<open>success\<close>: the outcome \<open>Sent n\<close> means that it did,
  that \<open>n = calculateImageTokens width height\<close> for the canvas, and that the tracker is
  \<open>addTokens n Image\<close> of the one before. With any other outcome, in particular when the
  result reports failure or the call is rejected, the state after the attempt is the
  state before it. For the whole of \<open>captureScreenshot\<close>: when nothing was sent the
  tracker is the one before the call, or that one purged by the throttle check, and the
  sum of the last minute read at any time from the check on is what it would have been.
\<close>

theorem tokens_added_only_on_success:
  "(fst (sendImage env q st) = Sent n \<longrightarrow>
      (\<exists>d r w h. base64data env q = Some d \<and> sendImageContent env d = Resolved r \<and> success r
          \<and> offscreenCanvas st = Some (w, h) \<and> n = calculateImageTokens w h)
      \<and> tokenTracker (snd (sendImage env q st))
          = addTokens (tAdd env) (tClean env) n Image (tokenTracker st))
   \<and> ((\<forall>k. fst (sendImage env q st) \<noteq> Sent k) \<longrightarrow> snd (sendImage env q st) = st)
   \<and> (base64data env q = Some d \<and> sendImageContent env d = Resolved r \<and> \<not> success r \<longrightarrow>
        snd (sendImage env q st) = st \<and> (\<forall>k. fst (sendImage env q st) \<noteq> Sent k))
   \<and> (base64data env q = Some d \<and> sendImageContent env d = Rejected m \<longrightarrow>
        snd (sendImage env q st) = st \<and> (\<forall>k. fst (sendImage env q st) \<noteq> Sent k))
   \<and> ((\<forall>k. fst (captureScreenshot env iq man st) \<noteq> Sent k) \<longrightarrow>
        (tokenTracker (snd (captureScreenshot env iq man st)) = tokenTracker st
         \<or> tokenTracker (snd (captureScreenshot env iq man st))
             = cleanOldTokens (tThrottle env) (tokenTracker st))
        \<and> (\<forall>t. tThrottle env \<le> t \<longrightarrow>
              fst (getTokensInLastMinute t (tokenTracker (snd (captureScreenshot env iq man st))))
                = fst (getTokensInLastMinute t (tokenTracker st))))
   \<and> (fst (captureScreenshot env iq man st) = Sent n \<longrightarrow>
        (\<exists>d r. base64data env (qualityValue iq) = Some d \<and> sendImageContent env d = Resolved r
           \<and> success r))"
proof -
  note sc = sendImage_cases [OF surjective_pairing, of env q st]
  have a: "(\<exists>d r w h. base64data env q = Some d \<and> sendImageContent env d = Resolved r \<and> success r
          \<and> offscreenCanvas st = Some (w, h) \<and> n = calculateImageTokens w h)
      \<and> tokenTracker (snd (sendImage env q st))
          = addTokens (tAdd env) (tClean env) n Image (tokenTracker st)"
    if "fst (sendImage env q st) = Sent n"
    using sc that by auto
  have b: "snd (sendImage env q st) = st" if "\<forall>k. fst (sendImage env q st) \<noteq> Sent k"
    using sc that by auto
  have c: "snd (sendImage env q st) = st \<and> (\<forall>k. fst (sendImage env q st) \<noteq> Sent k)"
    if "base64data env q = Some d \<and> sendImageContent env d = Resolved r \<and> \<not> success r"
    using that by (auto simp: sendImage_def)
  have d: "snd (sendImage env q st) = st \<and> (\<forall>k. fst (sendImage env q st) \<noteq> Sent k)"
    if "base64data env q = Some d \<and> sendImageContent env d = Rejected m"
    using that by (auto simp: sendImage_def)
  note cc = capture_cases [OF surjective_pairing, of env iq man st]
  have e1: "tokenTracker (snd (captureScreenshot env iq man st)) = tokenTracker st
         \<or> tokenTracker (snd (captureScreenshot env iq man st))
             = cleanOldTokens (tThrottle env) (tokenTracker st)"
    if none: "\<forall>k. fst (captureScreenshot env iq man st) \<noteq> Sent k"
  proof -
    from cc consider
      (early) "tokenTracker (snd (captureScreenshot env iq man st)) = tokenTracker st
         \<or> tokenTracker (snd (captureScreenshot env iq man st))
             = cleanOldTokens (tThrottle env) (tokenTracker st)"
      | (send) st2 where "sendImage env (qualityValue iq) st2
            = (fst (captureScreenshot env iq man st), snd (captureScreenshot env iq man st))"
          "tokenTracker st2 = tokenTracker st
             \<or> tokenTracker st2 = cleanOldTokens (tThrottle env) (tokenTracker st)"
      by auto
    then show ?thesis
    proof cases
      case early
      then show ?thesis .
    next
      case send
      from sendImage_cases [OF send(1)] none have "snd (captureScreenshot env iq man st) = st2"
        by auto
      with send(2) show ?thesis by simp
    qed
  qed
  have e2: "\<forall>t. tThrottle env \<le> t \<longrightarrow>
              fst (getTokensInLastMinute t (tokenTracker (snd (captureScreenshot env iq man st))))
                = fst (getTokensInLastMinute t (tokenTracker st))"
    if none: "\<forall>k. fst (captureScreenshot env iq man st) \<noteq> Sent k"
    using e1 [OF none] purge_then_query [of "tThrottle env" _ "tokenTracker st"] by auto
  have f: "\<exists>d r. base64data env (qualityValue iq) = Some d \<and> sendImageContent env d = Resolved r
           \<and> success r"
    if sent: "fst (captureScreenshot env iq man st) = Sent n"
  proof -
    from cc sent obtain st2 where "sendImage env (qualityValue iq) st2
            = (fst (captureScreenshot env iq man st), snd (captureScreenshot env iq man st))"
      by auto
    from sendImage_cases [OF this] sent show ?thesis by auto
  qed
  from a b c d e1 e2 f show ?thesis by blast
qed

theorem tokens_added_only_on_success_witness:
  "tokenTracker (snd (captureScreenshot (exampleEnv 1500 greyFrame False) (lit ''medium'') True
       (startCapture True (renderer0 settingsOff)))) = tokenTracker0
   \<and> fst (captureScreenshot (exampleEnv 1500 greyFrame False) (lit ''medium'') True
       (startCapture True (renderer0 settingsOff))) = SendFailed
   \<and> tokenTracker (snd (sendImage (exampleEnv 1500 greyFrame True) (7 / 10)
       ((startCapture True (renderer0 settingsOff))\<lparr>offscreenCanvas := Some (800, 800)\<rparr>)))
     = \<lparr>tokens = [\<lparr>timestamp = 1540, count = 1032, type = Image\<rparr>], audioStartTime = None\<rparr>"
proof -
  have o: "fst (captureScreenshot (exampleEnv 1500 greyFrame False) (lit ''medium'') True
       (startCapture True (renderer0 settingsOff))) = SendFailed"
    by (simp add: captureScreenshot_def sendImage_def exampleEnv_def startCapture_def renderer0_def
      settingsOff_def Let_def)
  have t0: "tokenTracker (startCapture True (renderer0 settingsOff)) = tokenTracker0"
    by (simp add: startCapture_def renderer0_def reset_def tokenTracker0_def)
  have p: "cleanOldTokens 1500 tokenTracker0 = tokenTracker0"
    by (simp add: cleanOldTokens_def tokenTracker0_def)
  have s: "fst (sendImage (exampleEnv 1500 greyFrame True) (7 / 10)
       ((startCapture True (renderer0 settingsOff))\<lparr>offscreenCanvas := Some (800, 800)\<rparr>)) = Sent 1032"
    by (simp add: sendImage_def exampleEnv_def startCapture_def renderer0_def
      settingsOff_def Let_def calculateImageTokens_def ceiling_divide_eq_div_numeral)
  have env: "tThrottle (exampleEnv 1500 greyFrame False) = 1500"
    "tAdd (exampleEnv 1500 greyFrame True) = 1540" "tClean (exampleEnv 1500 greyFrame True) = 1540"
    by (simp_all add: exampleEnv_def)
  have add: "addTokens 1540 1540 1032 Image tokenTracker0
      = \<lparr>tokens = [\<lparr>timestamp = 1540, count = 1032, type = Image\<rparr>], audioStartTime = None\<rparr>"
    by (simp add: addTokens_def cleanOldTokens_def tokenTracker0_def)
  from tokens_added_only_on_success [of "exampleEnv 1500 greyFrame False" "7 / 10"
      "startCapture True (renderer0 settingsOff)" 0 "[]" "\<lparr>success = False, error = None\<rparr>" "[]"
      "lit ''medium''" True] o
  have "tokenTracker (snd (captureScreenshot (exampleEnv 1500 greyFrame False) (lit ''medium'') True
       (startCapture True (renderer0 settingsOff)))) = tokenTracker0"
    by (simp add: t0 p env)
  moreover
  from tokens_added_only_on_success [of "exampleEnv 1500 greyFrame True" "7 / 10"
      "(startCapture True (renderer0 settingsOff))\<lparr>offscreenCanvas := Some (800, 800)\<rparr>" 1032 "[]"
      "\<lparr>success = False, error = None\<rparr>" "[]" "lit ''medium''" True] s
  have "tokenTracker (snd (sendImage (exampleEnv 1500 greyFrame True) (7 / 10)
       ((startCapture True (renderer0 settingsOff))\<lparr>offscreenCanvas := Some (800, 800)\<rparr>)))
     = addTokens 1540 1540 1032 Image tokenTracker0"
    by (simp add: env t0)
  ultimately show ?thesis using o add by simp
qed


section \<open>The change gate when a fingerprint is held\<close>

text \<open>
  Were \<^verbatim>\<open>lastSentDiffData\<close> set, the loop would count the changed pixels of a well-formed
  frame, and the capture would stop as unchanged exactly when fewer than 5% of the 14400
  pixels changed (20 times the count below 14400); a frame identical to the fingerprint
  would stop there.
\<close>

lemma countChanged_from:
  assumes "length frame = 4 * n" and "length lastSent = 4 * n" and "k \<le> n"
  shows "countChanged frame lastSent (4 * k) c
       = c + length (filter (pixelChanged frame lastSent) [k..<n])"
  using assms(3)
proof (induction "n - k" arbitrary: k c)
  case 0
  then have "k = n" by simp
  then show ?case using assms(1) by (subst countChanged.simps) simp
next
  case (Suc m)
  then have k: "k < n" and m: "m = n - Suc k" and le: "Suc k \<le> n" by simp_all
  have rd: "byteAt frame (4 * k + j) = Some (uint (frame ! (4 * k + j)))"
    "byteAt lastSent (4 * k + j) = Some (uint (lastSent ! (4 * k + j)))" if "j < 4" for j
    using k that assms(1,2) by (simp_all add: byteAt_def)
  have ch: "(exceeds10 (absDiff (byteAt frame (4 * k)) (byteAt lastSent (4 * k)))
       \<or> exceeds10 (absDiff (byteAt frame (4 * k + 1)) (byteAt lastSent (4 * k + 1)))
       \<or> exceeds10 (absDiff (byteAt frame (4 * k + 2)) (byteAt lastSent (4 * k + 2))))
      = pixelChanged frame lastSent k"
    using rd [of 0] rd [of 1] rd [of 2] by (simp add: absDiff_def exceeds10_def pixelChanged_def)
  have lt: "4 * k < length frame" using k assms(1) by simp
  have unfold: "countChanged frame lastSent (4 * k) c
      = countChanged frame lastSent (4 * Suc k) (if pixelChanged frame lastSent k then c + 1 else c)"
    using lt by (subst countChanged.simps) (simp only: Let_def ch if_True, simp add: add.commute)
  have up: "[k..<n] = k # [Suc k..<n]" using k by (simp add: upt_conv_Cons)
  show ?case
    unfolding unfold Suc.hyps(1) [OF m le] up by simp
qed

lemma countChanged_pixels:
  assumes "length frame = 4 * n" and "length lastSent = 4 * n"
  shows "countChanged frame lastSent 0 0 = length (filter (pixelChanged frame lastSent) [0..<n])"
  using countChanged_from [OF assms, of 0 0] by simp

lemma change_gate:
  assumes "mediaStream st" and "throttleTokens (storage st) \<noteq> Some (lit ''true'')"
    and "hiddenVideo st" and "offscreenCanvas st \<noteq> None" and "2 \<le> readyState env"
    and "lastSentDiffData st = Some lastSent"
    and "length (diffImageData env) = 4 * (DIFF_CANVAS_WIDTH * DIFF_CANVAS_HEIGHT)"
    and "length lastSent = 4 * (DIFF_CANVAS_WIDTH * DIFF_CANVAS_HEIGHT)"
  shows "(fst (captureScreenshot env iq False st) = ScreenUnchanged)
       = (20 * length (filter (pixelChanged (diffImageData env) lastSent)
                         [0..<DIFF_CANVAS_WIDTH * DIFF_CANVAS_HEIGHT]) < 14400)"
proof -
  define c where "c = length (filter (pixelChanged (diffImageData env) lastSent)
      [0..<DIFF_CANVAS_WIDTH * DIFF_CANVAS_HEIGHT])"
  have cnt: "countChanged (diffImageData env) lastSent 0 0 = c"
    unfolding c_def using assms(7,8) by (rule countChanged_pixels)
  have ratio: "(real c / real (DIFF_CANVAS_WIDTH * DIFF_CANVAS_HEIGHT) < SCREEN_CHANGE_THRESHOLD)
      = (20 * c < 14400)"
  proof -
    have "(real c / 14400 < 5 / 100) = (real (20 * c) < real 14400)"
      by (simp add: field_simps)
    also have "\<dots> = (20 * c < 14400)"
      by (simp only: of_nat_less_iff)
    finally show ?thesis
      by (simp add: DIFF_CANVAS_WIDTH_def DIFF_CANVAS_HEIGHT_def SCREEN_CHANGE_THRESHOLD_def)
  qed
  have off: "shouldThrottle (tThrottle env) (storage st) (tokenTracker st) = (False, tokenTracker st)"
    using assms(2) by (simp add: shouldThrottle_def)
  from assms(4) obtain wh where canvas: "offscreenCanvas st = Some wh"
    by auto
  have ratio': "(real c / (real DIFF_CANVAS_WIDTH * real DIFF_CANVAS_HEIGHT) < SCREEN_CHANGE_THRESHOLD)
      = (20 * c < 14400)"
    using ratio by simp
  have "fst (captureScreenshot env iq False st) =
      (if 20 * c < 14400 then ScreenUnchanged
       else if tGate env - lastScreenshotSentTime st < MIN_SEND_INTERVAL_MS then MinIntervalNotMet
       else fst (sendImage env (qualityValue iq) (st\<lparr>lastSentDiffData := Some (diffImageData env)\<rparr>)))"
    using assms(1,3,5,6) canvas
    by (simp add: captureScreenshot_def off Let_def cnt ratio ratio' del: of_nat_mult)
  then show ?thesis
    using sendImage_not_gated unfolding c_def [symmetric] by simp
qed

lemma identical_frame_unchanged:
  assumes "mediaStream st" and "throttleTokens (storage st) \<noteq> Some (lit ''true'')"
    and "hiddenVideo st" and "offscreenCanvas st \<noteq> None" and "2 \<le> readyState env"
    and "lastSentDiffData st = Some (diffImageData env)"
    and "length (diffImageData env) = 4 * (DIFF_CANVAS_WIDTH * DIFF_CANVAS_HEIGHT)"
  shows "fst (captureScreenshot env iq False st) = ScreenUnchanged"
proof -
  have "filter (pixelChanged (diffImageData env) (diffImageData env)) xs = []" for xs
    by (simp add: pixelChanged_def)
  with change_gate [OF assms(1-6) assms(7) assms(7), of iq] show ?thesis by simp
qed

end
